theory Spec2Isabelle
  imports Main
begin

section \<open>Values received from clients\<close>

text \<open>
  Socket payloads are JSON values chosen by the client. The handlers of
  \<^verbatim>\<open>src/socket/socket.js\<close> only test them for truthiness, use them as keys of
  \<^verbatim>\<open>Map\<close>s and pass them on, so the primitive values are modelled: \<^verbatim>\<open>undefined\<close>,
  \<^verbatim>\<open>null\<close>, booleans, integral numbers and strings. Object-valued identifiers (keys
  compared by reference) are outside the model.
\<close>

datatype jsval = JUndefined | JNull | JBool bool | JNum int | JStr string

fun truthy :: "jsval \<Rightarrow> bool" where
  "truthy JUndefined = False"
| "truthy JNull = False"
| "truthy (JBool b) = b"
| "truthy (JNum n) = (n \<noteq> 0)"
| "truthy (JStr s) = (s \<noteq> [])"

text \<open>The operator \<^verbatim>\<open>a || b\<close>.\<close>

definition js_or :: "jsval \<Rightarrow> jsval \<Rightarrow> jsval" where
  "js_or a b = (if truthy a then a else b)"

text \<open>
  The first argument of an event whose handler destructures it (\<^verbatim>\<open>({ chatId, content })\<close>):
  destructuring \<^verbatim>\<open>undefined\<close> or \<^verbatim>\<open>null\<close> throws a TypeError; any other value has the
  listed own properties, and a property it lacks reads as \<^verbatim>\<open>undefined\<close>.
\<close>

datatype payload = NoPayload | Fields "(string \<times> jsval) list"

datatype js_error = TypeError

definition get_field :: "(string \<times> jsval) list \<Rightarrow> string \<Rightarrow> jsval" where
  "get_field fs k = (case map_of fs k of None \<Rightarrow> JUndefined | Some v \<Rightarrow> v)"

text \<open>\<^verbatim>\<open>Map.prototype.get\<close> on a map whose values are primitive: \<^verbatim>\<open>undefined\<close> when absent.\<close>

definition map_get :: "('k \<rightharpoonup> jsval) \<Rightarrow> 'k \<Rightarrow> jsval" where
  "map_get m k = (case m k of None \<Rightarrow> JUndefined | Some v \<Rightarrow> v)"

section \<open>Data model\<close>

type_synonym sid = string

record avatar =
  publicId :: string
  url :: string

text \<open>What \<^verbatim>\<open>User.findById(userId).select('name email avatar')\<close> yields, and what
  \<^verbatim>\<open>userCache\<close> stores: \<^verbatim>\<open>{ _id, name, email, avatar }\<close>.\<close>

record profile =
  user_id :: string
  user_name :: string
  user_email :: string
  user_avatar :: avatar

text \<open>The answer of the user store to one \<^verbatim>\<open>findById\<close>: a document, \<^verbatim>\<open>null\<close>, or a
  rejection (caught by the \<^verbatim>\<open>try\<close> of \<^verbatim>\<open>getUserDetails\<close>).\<close>

datatype store_reply = Found profile | NoSuchUser | LookupFailed

text \<open>The \<^verbatim>\<open>sender\<close> field of \<^verbatim>\<open>receiveMessage\<close>: the whole cached profile, or an object
  with \<^verbatim>\<open>_id\<close> and \<^verbatim>\<open>name\<close> only.\<close>

datatype sender = Details profile | IdName jsval string

record receive_message =
  rm_id :: "string option"
  rm_chatId :: jsval
  rm_senderId :: "jsval option"
  rm_sender :: sender
  rm_content :: jsval
  rm_createdAt :: int
  rm_status :: "string option"

datatype out_event =
    ErrorEvent string string
  | UserOnline jsval
  | UserOffline jsval
  | TypingEvent jsval jsval
  | StopTypingEvent jsval jsval
  | ReceiveMessage receive_message
  | MessagesRead jsval jsval

datatype ack = MessageSent | ServerTime int

text \<open>
  What a handler does to the outside, in the order of the source:
  \<^verbatim>\<open>socket.emit\<close>, \<^verbatim>\<open>io.to(room).emit\<close>, \<^verbatim>\<open>socket.to(room).emit\<close>,
  \<^verbatim>\<open>socket.broadcast.emit\<close>, a call of the acknowledgement callback, and (HTTP
  controller only) \<^verbatim>\<open>Message.create\<close>.
\<close>

datatype effect =
    SocketEmit sid out_event
  | RoomEmit jsval out_event
  | SocketToRoom sid jsval out_event
  | SocketBroadcast sid out_event
  | Callback sid ack
  | MessageCreate jsval string jsval

record rate_entry =
  count :: nat
  timestamp :: int

text \<open>A handler suspended at \<^verbatim>\<open>await User.findById(...)\<close> inside \<^verbatim>\<open>getUserDetails\<close>:
  the pre-fetch of \<^verbatim>\<open>authenticate\<close>, or a \<^verbatim>\<open>sendMessage\<close> with its socket, userId,
  chatId, content and whether a callback was supplied.\<close>

datatype pending = AuthLookup jsval | SendLookup sid jsval jsval jsval bool

text \<open>
  The module's shared maps, the pending \<^verbatim>\<open>setTimeout\<close> evictions (due time and userId,
  in creation order), the suspended handlers, and what the transport knows: the
  connected sockets and the rooms each one has joined.
\<close>

record state =
  onlineUsers :: "jsval \<rightharpoonup> sid"
  userRooms :: "jsval \<rightharpoonup> jsval set"
  messageRateLimits :: "jsval \<rightharpoonup> rate_entry"
  socketIdToUserId :: "sid \<rightharpoonup> jsval"
  userCache :: "jsval \<rightharpoonup> profile"
  timers :: "(int \<times> jsval) list"
  pending :: "pending list"
  sockets :: "sid set"
  rooms :: "sid \<Rightarrow> jsval set"

definition init :: state where
  "init = \<lparr> onlineUsers = Map.empty, userRooms = Map.empty, messageRateLimits = Map.empty,
            socketIdToUserId = Map.empty, userCache = Map.empty, timers = [], pending = [],
            sockets = {}, rooms = (\<lambda>_. {}) \<rparr>"

section \<open>Room management\<close>

definition addUserToRoom :: "state \<Rightarrow> jsval \<Rightarrow> jsval \<Rightarrow> state" where
  "addUserToRoom st userId chatId =
     (let st1 = (if userRooms st userId = None
                 then st\<lparr>userRooms := (userRooms st)(userId \<mapsto> {})\<rparr> else st)
      in case userRooms st1 userId of
           None \<Rightarrow> st1
         | Some s \<Rightarrow> st1\<lparr>userRooms := (userRooms st1)(userId \<mapsto> insert chatId s)\<rparr>)"

definition removeUserFromRoom :: "state \<Rightarrow> jsval \<Rightarrow> jsval \<Rightarrow> state" where
  "removeUserFromRoom st userId chatId =
     (let st1 = (case userRooms st userId of
                   None \<Rightarrow> st
                 | Some s \<Rightarrow> st\<lparr>userRooms := (userRooms st)(userId \<mapsto> s - {chatId})\<rparr>)
      in case userRooms st1 userId of
           None \<Rightarrow> st1
         | Some s \<Rightarrow> if s = {} then st1\<lparr>userRooms := (userRooms st1)(userId := None)\<rparr> else st1)"

section \<open>Rate limiting\<close>

text \<open>
  \<^verbatim>\<open>isRateLimited\<close> reads the clock (\<^verbatim>\<open>now\<close>). The entry read from the map is the stored
  object itself, so \<^verbatim>\<open>userLimit.count += 1\<close> changes the map even on the branch that
  returns \<^verbatim>\<open>true\<close> before \<^verbatim>\<open>messageRateLimits.set\<close>; the default object of a user without
  an entry is fresh and reaches the map only through \<^verbatim>\<open>set\<close>.
\<close>

definition isRateLimited :: "state \<Rightarrow> jsval \<Rightarrow> int \<Rightarrow> bool \<times> state" where
  "isRateLimited st userId now =
     (let stored = messageRateLimits st userId;
          userLimit = (case stored of None \<Rightarrow> \<lparr>count = 0, timestamp = now\<rparr> | Some e \<Rightarrow> e);
          currentTime = now;
          timeDiff = currentTime - timestamp userLimit
      in if timeDiff < 1000 then
           (let userLimit1 = userLimit\<lparr>count := count userLimit + 1\<rparr>;
                st1 = (if stored = None then st
                       else st\<lparr>messageRateLimits := (messageRateLimits st)(userId \<mapsto> userLimit1)\<rparr>)
            in if count userLimit1 > 5 then (True, st1)
               else (False, st1\<lparr>messageRateLimits := (messageRateLimits st1)(userId \<mapsto> userLimit1)\<rparr>))
         else
           (let userLimit1 = userLimit\<lparr>count := 1, timestamp := currentTime\<rparr>
            in (False, st\<lparr>messageRateLimits := (messageRateLimits st)(userId \<mapsto> userLimit1)\<rparr>)))"

section \<open>Error reporting\<close>

text \<open>\<^verbatim>\<open>sendError(socket, message, code = 'GENERIC_ERROR')\<close>: one \<^verbatim>\<open>error\<close> event on the
  socket itself.\<close>

definition sendError :: "sid \<Rightarrow> string \<Rightarrow> string option \<Rightarrow> effect" where
  "sendError socket message code =
     SocketEmit socket (ErrorEvent message (case code of None \<Rightarrow> ''GENERIC_ERROR'' | Some c \<Rightarrow> c))"

section \<open>User details with caching\<close>

text \<open>
  \<^verbatim>\<open>getUserDetails\<close> is an \<^verbatim>\<open>async\<close> function with one \<^verbatim>\<open>await\<close>, on the store. Its
  synchronous prefix answers from \<^verbatim>\<open>userCache\<close>; \<open>None\<close> here means that the store is
  queried and the caller stays suspended until the store replies.
  \<open>getUserDetails_reply\<close> is the rest of the function, run with the store's reply at the
  time \<^verbatim>\<open>now\<close> of that reply, on the state as it is then: a document is cached and one
  eviction is scheduled five minutes later; \<^verbatim>\<open>null\<close> and a rejection both give \<^verbatim>\<open>null\<close>.
\<close>

definition getUserDetails :: "state \<Rightarrow> jsval \<Rightarrow> profile option" where
  "getUserDetails st userId = (if userId \<in> dom (userCache st) then userCache st userId else None)"

definition getUserDetails_reply :: "state \<Rightarrow> jsval \<Rightarrow> store_reply \<Rightarrow> int \<Rightarrow> profile option \<times> state" where
  "getUserDetails_reply st userId reply now =
     (case reply of
        Found user \<Rightarrow>
          (Some user,
           st\<lparr>userCache := (userCache st)(userId \<mapsto> user),
              timers := timers st @ [(now + 5 * 60 * 1000, userId)]\<rparr>)
      | NoSuchUser \<Rightarrow> (None, st)
      | LookupFailed \<Rightarrow> (None, st))"

text \<open>The callbacks of \<^verbatim>\<open>setTimeout\<close> that are due at \<^verbatim>\<open>now\<close> run, in creation order;
  each is \<^verbatim>\<open>userCache.delete(userId)\<close>.\<close>

definition fire_timers :: "int \<Rightarrow> state \<Rightarrow> state" where
  "fire_timers now st =
     st\<lparr>userCache := fold (\<lambda>(due, userId) m. m(userId := None))
                         (filter (\<lambda>(due, userId). due \<le> now) (timers st)) (userCache st),
        timers := filter (\<lambda>(due, userId). \<not> due \<le> now) (timers st)\<rparr>"

section \<open>Transport\<close>

text \<open>\<^verbatim>\<open>socket.join\<close> and \<^verbatim>\<open>socket.leave\<close>, and which socket a given effect reaches.\<close>

definition socket_join :: "state \<Rightarrow> sid \<Rightarrow> jsval \<Rightarrow> state" where
  "socket_join st s room = st\<lparr>rooms := (rooms st)(s := insert room (rooms st s))\<rparr>"

definition socket_leave :: "state \<Rightarrow> sid \<Rightarrow> jsval \<Rightarrow> state" where
  "socket_leave st s room = st\<lparr>rooms := (rooms st)(s := rooms st s - {room})\<rparr>"

fun delivered :: "state \<Rightarrow> effect \<Rightarrow> sid \<Rightarrow> bool" where
  "delivered st (SocketEmit s ev) r = (r = s)"
| "delivered st (RoomEmit room ev) r = (r \<in> sockets st \<and> room \<in> rooms st r)"
| "delivered st (SocketToRoom s room ev) r = (r \<in> sockets st \<and> room \<in> rooms st r \<and> r \<noteq> s)"
| "delivered st (SocketBroadcast s ev) r = (r \<in> sockets st \<and> r \<noteq> s)"
| "delivered st (Callback s a) r = (r = s)"
| "delivered st (MessageCreate chat user body) r = False"

section \<open>Event handlers\<close>

type_synonym result = "js_error + state \<times> effect list"

text \<open>\<^verbatim>\<open>socketIdToUserId.get(socket.id) || socket.id\<close>\<close>

definition resolve :: "state \<Rightarrow> sid \<Rightarrow> jsval" where
  "resolve st s = js_or (map_get (socketIdToUserId st) s) (JStr s)"

definition connection :: "state \<Rightarrow> sid \<Rightarrow> result" where
  "connection st s =
     Inr (st\<lparr>onlineUsers := (onlineUsers st)(JStr s \<mapsto> s)\<rparr>, [SocketBroadcast s (UserOnline (JStr s))])"

definition authenticate :: "state \<Rightarrow> sid \<Rightarrow> payload \<Rightarrow> result" where
  "authenticate st s p =
     (case p of
        NoPayload \<Rightarrow> Inl TypeError
      | Fields fs \<Rightarrow>
          (let userId = get_field fs ''userId'' in
           if truthy userId then
             (let st1 = st\<lparr>socketIdToUserId := (socketIdToUserId st)(s \<mapsto> userId)\<rparr>;
                  st2 = st1\<lparr>onlineUsers := (onlineUsers st1)(userId \<mapsto> s)\<rparr>
              in case getUserDetails st2 userId of
                   Some cached \<Rightarrow> Inr (st2, [])
                 | None \<Rightarrow> Inr (st2\<lparr>pending := pending st2 @ [AuthLookup userId]\<rparr>, []))
           else Inr (st, [])))"

definition joinChat :: "state \<Rightarrow> sid \<Rightarrow> jsval \<Rightarrow> result" where
  "joinChat st s chatId =
     (let userId = resolve st s;
          st1 = socket_join st s chatId
      in Inr (addUserToRoom st1 userId chatId, []))"

definition leaveChat :: "state \<Rightarrow> sid \<Rightarrow> jsval \<Rightarrow> result" where
  "leaveChat st s chatId =
     (let userId = resolve st s;
          st1 = socket_leave st s chatId
      in Inr (removeUserFromRoom st1 userId chatId, []))"

definition typing :: "state \<Rightarrow> sid \<Rightarrow> payload \<Rightarrow> result" where
  "typing st s p =
     (case p of
        NoPayload \<Rightarrow> Inl TypeError
      | Fields fs \<Rightarrow>
          (let chatId = get_field fs ''chatId''; userName = get_field fs ''userName''
           in Inr (st, [SocketToRoom s chatId (TypingEvent chatId userName)])))"

definition stopTyping :: "state \<Rightarrow> sid \<Rightarrow> payload \<Rightarrow> result" where
  "stopTyping st s p =
     (case p of
        NoPayload \<Rightarrow> Inl TypeError
      | Fields fs \<Rightarrow>
          (let chatId = get_field fs ''chatId''; userName = get_field fs ''userName''
           in Inr (st, [SocketToRoom s chatId (StopTypingEvent chatId userName)])))"

text \<open>The part of the \<^verbatim>\<open>sendMessage\<close> handler after \<^verbatim>\<open>await getUserDetails(userId)\<close>:
  the broadcast to the room and the acknowledgement. \<open>callback\<close> tells whether the client
  asked for an acknowledgement, in which case the second argument is the function that
  sends it.\<close>

definition sendMessage_emit ::
  "sid \<Rightarrow> jsval \<Rightarrow> jsval \<Rightarrow> profile option \<Rightarrow> jsval \<Rightarrow> int \<Rightarrow> bool \<Rightarrow> effect list" where
  "sendMessage_emit s chatId userId userDetails content now callback =
     [RoomEmit chatId (ReceiveMessage
        \<lparr>rm_id = None, rm_chatId = chatId, rm_senderId = Some userId,
         rm_sender = (case userDetails of
                        Some details \<Rightarrow> Details details
                      | None \<Rightarrow> IdName userId ''Unknown User''),
         rm_content = content, rm_createdAt = now, rm_status = None\<rparr>)]
     @ (if callback then [Callback s MessageSent] else [])"

definition sendMessage :: "state \<Rightarrow> sid \<Rightarrow> payload \<Rightarrow> bool \<Rightarrow> int \<Rightarrow> result" where
  "sendMessage st s p callback now =
     (case p of
        NoPayload \<Rightarrow> Inl TypeError
      | Fields fs \<Rightarrow>
          (let chatId = get_field fs ''chatId''; content = get_field fs ''content'' in
           if \<not> truthy chatId \<or> \<not> truthy content then
             Inr (st, [sendError s ''Chat ID and content are required.'' (Some ''MISSING_FIELDS'')])
           else
             (let userId = resolve st s;
                  (limited, st1) = isRateLimited st userId now
              in if limited then
                   Inr (st1, [sendError s ''Rate limit exceeded. Please slow down.'' (Some ''RATE_LIMIT'')])
                 else
                   (case getUserDetails st1 userId of
                      Some details \<Rightarrow>
                        Inr (st1, sendMessage_emit s chatId userId (Some details) content now callback)
                    | None \<Rightarrow>
                        Inr (st1\<lparr>pending := pending st1 @ [SendLookup s userId chatId content callback]\<rparr>,
                             [])))))"

text \<open>A suspended handler continues when the store replies.\<close>

definition resume :: "state \<Rightarrow> pending \<Rightarrow> store_reply \<Rightarrow> int \<Rightarrow> state \<times> effect list" where
  "resume st k reply now =
     (case k of
        AuthLookup userId \<Rightarrow> (snd (getUserDetails_reply st userId reply now), [])
      | SendLookup s userId chatId content callback \<Rightarrow>
          (let (userDetails, st1) = getUserDetails_reply st userId reply now
           in (st1, sendMessage_emit s chatId userId userDetails content now callback)))"

definition markMessagesRead :: "state \<Rightarrow> sid \<Rightarrow> payload \<Rightarrow> result" where
  "markMessagesRead st s p =
     (case p of
        NoPayload \<Rightarrow> Inl TypeError
      | Fields fs \<Rightarrow>
          (let chatId = get_field fs ''chatId''; userId = resolve st s
           in Inr (st, [RoomEmit chatId (MessagesRead chatId userId)])))"

definition pingServer :: "state \<Rightarrow> sid \<Rightarrow> bool \<Rightarrow> int \<Rightarrow> result" where
  "pingServer st s callback now =
     (let serverTime = now in Inr (st, if callback then [Callback s (ServerTime serverTime)] else []))"

definition disconnect :: "state \<Rightarrow> sid \<Rightarrow> result" where
  "disconnect st s =
     (let userId = resolve st s;
          st1 = (if truthy userId
                 then st\<lparr>onlineUsers := (onlineUsers st)(userId := None),
                         socketIdToUserId := (socketIdToUserId st)(s := None)\<rparr>
                 else st);
          st2 = st1\<lparr>onlineUsers := (onlineUsers st1)(JStr s := None)\<rparr>;
          st3 = (case userRooms st2 userId of
                   None \<Rightarrow> st2
                 | Some joined \<Rightarrow> st2\<lparr>rooms := (rooms st2)(s := rooms st2 s - joined)\<rparr>);
          st4 = st3\<lparr>userRooms := (userRooms st3)(userId := None)\<rparr>
      in Inr (st4, [SocketBroadcast s (UserOffline userId)]))"

section \<open>The server as a machine\<close>

text \<open>
  One event loop: an inbound socket event, or the store's reply to the lookup at a given
  position of the suspended handlers. Each event carries the clock reading at which it
  is handled; evictions due by then have run. The transport registers a socket (in the
  room of its own id) before \<^verbatim>\<open>connection\<close> and has removed it from every room before
  \<^verbatim>\<open>disconnect\<close>. An exception ends the run.
\<close>

datatype event =
    Connect sid
  | Authenticate sid payload
  | JoinChat sid jsval
  | LeaveChat sid jsval
  | Typing sid payload
  | StopTyping sid payload
  | SendMessage sid payload bool
  | MarkMessagesRead sid payload
  | PingServer sid bool
  | Disconnect sid
  | StoreReply nat store_reply

definition handle :: "int \<Rightarrow> event \<Rightarrow> state \<Rightarrow> result" where
  "handle now ev st =
     (case ev of
        Connect s \<Rightarrow> connection (st\<lparr>sockets := insert s (sockets st), rooms := (rooms st)(s := {JStr s})\<rparr>) s
      | Authenticate s p \<Rightarrow> authenticate st s p
      | JoinChat s chatId \<Rightarrow> joinChat st s chatId
      | LeaveChat s chatId \<Rightarrow> leaveChat st s chatId
      | Typing s p \<Rightarrow> typing st s p
      | StopTyping s p \<Rightarrow> stopTyping st s p
      | SendMessage s p callback \<Rightarrow> sendMessage st s p callback now
      | MarkMessagesRead s p \<Rightarrow> markMessagesRead st s p
      | PingServer s callback \<Rightarrow> pingServer st s callback now
      | Disconnect s \<Rightarrow> disconnect (st\<lparr>sockets := sockets st - {s}, rooms := (rooms st)(s := {})\<rparr>) s
      | StoreReply n reply \<Rightarrow>
          (if n < length (pending st)
           then Inr (resume (st\<lparr>pending := take n (pending st) @ drop (Suc n) (pending st)\<rparr>)
                            (pending st ! n) reply now)
           else Inr (st, [])))"

definition step :: "int \<Rightarrow> event \<Rightarrow> state \<Rightarrow> result" where
  "step now ev st = handle now ev (fire_timers now st)"

fun run :: "(int \<times> event) list \<Rightarrow> state \<Rightarrow> result" where
  "run [] st = Inr (st, [])"
| "run ((now, ev) # evs) st =
     (case step now ev st of
        Inl err \<Rightarrow> Inl err
      | Inr (st1, effs) \<Rightarrow>
          (case run evs st1 of
             Inl err \<Rightarrow> Inl err
           | Inr (st2, effs2) \<Rightarrow> Inr (st2, effs @ effs2)))"

section \<open>The HTTP controller for sending a message\<close>








section \<open>Sequences of calls\<close>

text \<open>Successive \<^verbatim>\<open>isRateLimited\<close> calls of one user at the given clock readings.\<close>

fun rate_calls :: "state \<Rightarrow> jsval \<Rightarrow> int list \<Rightarrow> bool list \<times> state" where
  "rate_calls st userId [] = ([], st)"
| "rate_calls st userId (now # later) =
     (let (limited, st1) = isRateLimited st userId now;
          (rest, st2) = rate_calls st1 userId later
      in (limited # rest, st2))"

text \<open>Successive joins and leaves of one user and one room.\<close>

datatype room_op = Join | Leave

fun room_ops :: "state \<Rightarrow> jsval \<Rightarrow> jsval \<Rightarrow> room_op list \<Rightarrow> state" where
  "room_ops st userId chatId [] = st"
| "room_ops st userId chatId (Join # ops) = room_ops (addUserToRoom st userId chatId) userId chatId ops"
| "room_ops st userId chatId (Leave # ops) = room_ops (removeUserFromRoom st userId chatId) userId chatId ops"

definition is_member :: "state \<Rightarrow> jsval \<Rightarrow> jsval \<Rightarrow> bool" where
  "is_member st userId chatId = (case userRooms st userId of None \<Rightarrow> False | Some s \<Rightarrow> chatId \<in> s)"

text \<open>
  The identity of a connection as the specification words it: the userId bound by the most
  recent \<^verbatim>\<open>authenticate\<close> of the connection, if one bound a userId, and otherwise the
  connection id itself. An \<^verbatim>\<open>authenticate\<close> binds the \<^verbatim>\<open>userId\<close> of its payload when that is
  truthy.
\<close>

definition auth_id :: "sid \<Rightarrow> event \<Rightarrow> jsval option" where
  "auth_id s ev =
     (case ev of
        Authenticate s' (Fields fs) \<Rightarrow>
          if s' = s \<and> truthy (get_field fs ''userId'') then Some (get_field fs ''userId'') else None
      | _ \<Rightarrow> None)"

fun auth_ids :: "sid \<Rightarrow> (int \<times> event) list \<Rightarrow> jsval list" where
  "auth_ids s [] = []"
| "auth_ids s ((now, ev) # evs) =
     (case auth_id s ev of Some u \<Rightarrow> u # auth_ids s evs | None \<Rightarrow> auth_ids s evs)"

definition spec_identity :: "sid \<Rightarrow> (int \<times> event) list \<Rightarrow> jsval" where
  "spec_identity s evs = (case auth_ids s evs of [] \<Rightarrow> JStr s | u # us \<Rightarrow> last (u # us))"

text \<open>
  Sending a message as the specification words it: the message is persisted for the room,
  and \<^verbatim>\<open>receiveMessage\<close> is broadcast to the room with the content and \<^verbatim>\<open>status: 'sent'\<close>.
\<close>

fun is_create :: "jsval \<Rightarrow> effect \<Rightarrow> bool" where
  "is_create chatId (MessageCreate chat user body) = (chat = chatId)"
| "is_create chatId eff = False"

fun is_sent_broadcast :: "jsval \<Rightarrow> jsval \<Rightarrow> effect \<Rightarrow> bool" where
  "is_sent_broadcast chatId content (RoomEmit room (ReceiveMessage m)) =
     (room = chatId \<and> rm_chatId m = chatId \<and> rm_content m = content \<and> rm_status m = Some ''sent'')"
| "is_sent_broadcast chatId content eff = False"


text \<open>
  A cache entry with its single eviction: the user's profile is cached, exactly one pending
  timer is the user's, due at \<open>due\<close>, and no suspended handler waits for a lookup of the user.
\<close>

fun pending_user :: "pending \<Rightarrow> jsval" where
  "pending_user (AuthLookup userId) = userId"
| "pending_user (SendLookup s userId chatId content callback) = userId"

definition cached_until :: "state \<Rightarrow> jsval \<Rightarrow> profile \<Rightarrow> int \<Rightarrow> bool" where
  "cached_until st userId details due =
     (userCache st userId = Some details \<and>
      filter (\<lambda>x. snd x = userId) (timers st) = [(due, userId)] \<and>
      filter (\<lambda>k. pending_user k = userId) (pending st) = [])"

text \<open>
  What one \<^verbatim>\<open>sendMessage\<close> call did, read off the handler's result on the state it ran on:
  it answered with the \<^verbatim>\<open>RATE_LIMIT\<close> error only; or it was suspended on the lookup of the
  sender, with no effect yet; or it broadcast the message with the cached sender (and
  acknowledged). Anything else, an exception included, is a failure.
\<close>

datatype outcome = Sent | Waiting | Limited | Failed

definition outcome_of :: "state \<Rightarrow> sid \<Rightarrow> (string \<times> jsval) list \<Rightarrow> bool \<Rightarrow> int \<Rightarrow> result \<Rightarrow> outcome" where
  "outcome_of st s fs callback now res =
     (let chatId = get_field fs ''chatId''; content = get_field fs ''content'';
          userId = resolve st s
      in case res of
           Inl err \<Rightarrow> Failed
         | Inr (st1, effs) \<Rightarrow>
             if effs = [SocketEmit s (ErrorEvent ''Rate limit exceeded. Please slow down.'' ''RATE_LIMIT'')]
             then Limited
             else if effs = [] \<and> pending st1 = pending st @ [SendLookup s userId chatId content callback]
             then Waiting
             else if pending st1 = pending st \<and>
                     (case userCache st userId of
                        Some details \<Rightarrow>
                          effs = sendMessage_emit s chatId userId (Some details) content now callback
                      | None \<Rightarrow> False)
             then Sent
             else Failed)"

text \<open>
  Successive \<^verbatim>\<open>sendMessage\<close> events handled by the server, each with its clock reading, its
  socket, the fields of its payload and whether it has a callback; the outcome of each
  call, and the state after the last.
\<close>

fun send_calls ::
  "state \<Rightarrow> (int \<times> sid \<times> (string \<times> jsval) list \<times> bool) list \<Rightarrow> outcome list \<times> state" where
  "send_calls st [] = ([], st)"
| "send_calls st ((now, s, fs, callback) # later) =
     (let res = step now (SendMessage s (Fields fs) callback) st;
          out = outcome_of (fire_timers now st) s fs callback now res
      in case res of
           Inl err \<Rightarrow> ([out], st)
         | Inr (st1, effs) \<Rightarrow> (let (outs, st2) = send_calls st1 later in (out # outs, st2)))"

text \<open>The events that count against a user's rate: a \<^verbatim>\<open>sendMessage\<close> that passes the
  validation, on a socket that resolves to the user.\<close>

definition counts_for :: "jsval \<Rightarrow> state \<Rightarrow> event \<Rightarrow> bool" where
  "counts_for userId st ev =
     (case ev of
        SendMessage s (Fields fs) callback \<Rightarrow>
          truthy (get_field fs ''chatId'') \<and> truthy (get_field fs ''content'') \<and> resolve st s = userId
      | _ \<Rightarrow> False)"


section \<open>Running the machine\<close>

text \<open>The definitions that a run on concrete events unfolds.\<close>

lemmas machine_defs = step_def handle_def fire_timers_def connection_def authenticate_def
  joinChat_def socket_join_def addUserToRoom_def
  sendMessage_def resume_def getUserDetails_def getUserDetails_reply_def isRateLimited_def
  resolve_def map_get_def js_or_def get_field_def sendMessage_emit_def sendError_def Let_def

section \<open>Room membership\<close>

lemma is_member_add: "is_member (addUserToRoom st u r) u r"
  by (simp add: is_member_def addUserToRoom_def Let_def split: option.splits)

lemma is_member_remove: "\<not> is_member (removeUserFromRoom st u r) u r"
  by (auto simp add: is_member_def removeUserFromRoom_def Let_def split: option.splits if_splits)

lemma room_ops_snoc:
  "room_ops st u r (ops @ [op]) =
     (case op of Join \<Rightarrow> addUserToRoom (room_ops st u r ops) u r
               | Leave \<Rightarrow> removeUserFromRoom (room_ops st u r ops) u r)"
  by (induction st u r ops rule: room_ops.induct) (auto split: room_op.splits)

lemma remove_empties:
  "userRooms st u = Some s \<Longrightarrow> s - {r} = {} \<Longrightarrow> userRooms (removeUserFromRoom st u r) u = None"
  by (simp add: removeUserFromRoom_def Let_def)

text \<open>
  C3. After any non-empty sequence of joins and leaves of one user and one room, from any
  state, the user is a member of the room exactly when the last operation was a join; and
  a leave that empties the user's set of rooms removes the user's entry of \<^verbatim>\<open>userRooms\<close>.
\<close>

theorem join_leave_last_op:
  "(ops \<noteq> [] \<longrightarrow> is_member (room_ops st u r ops) u r = (last ops = Join)) \<and>
   (\<forall>s. userRooms st u = Some s \<and> s - {r} = {} \<longrightarrow> userRooms (removeUserFromRoom st u r) u = None)"
proof (intro conjI impI allI)
  assume "ops \<noteq> []"
  then obtain ops' op where "ops = ops' @ [op]"
    by (metis rev_exhaust)
  then show "is_member (room_ops st u r ops) u r = (last ops = Join)"
    by (cases op) (simp_all add: room_ops_snoc is_member_add is_member_remove)
next
  fix s assume "userRooms st u = Some s \<and> s - {r} = {}"
  then show "userRooms (removeUserFromRoom st u r) u = None"
    by (simp add: remove_empties)
qed

theorem join_leave_last_op_witness:
  "is_member (room_ops init (JStr ''u1'') (JStr ''r1'') [Join, Leave, Join]) (JStr ''u1'') (JStr ''r1'') \<and>
   \<not> is_member (room_ops init (JStr ''u1'') (JStr ''r1'') [Join, Join, Leave]) (JStr ''u1'') (JStr ''r1'') \<and>
   userRooms (addUserToRoom init (JStr ''u1'') (JStr ''r1'')) (JStr ''u1'') = Some {JStr ''r1''} \<and>
   userRooms (removeUserFromRoom (addUserToRoom init (JStr ''u1'') (JStr ''r1'')) (JStr ''u1'') (JStr ''r1''))
     (JStr ''u1'') = None"
  using join_leave_last_op [of "[Join, Leave, Join]" init "JStr ''u1''" "JStr ''r1''"]
    join_leave_last_op [of "[Join, Join, Leave]" init "JStr ''u1''" "JStr ''r1''"]
    join_leave_last_op [of "[]" "addUserToRoom init (JStr ''u1'') (JStr ''r1'')" "JStr ''u1''" "JStr ''r1''"]
  by (simp add: addUserToRoom_def init_def Let_def)

section \<open>The rate window\<close>

lemma isRateLimited_open:
  "(case messageRateLimits st u of None \<Rightarrow> True | Some e \<Rightarrow> timestamp e + 1000 \<le> start) \<Longrightarrow>
   fst (isRateLimited st u start) = False \<and>
   messageRateLimits (snd (isRateLimited st u start)) u = Some \<lparr>count = 1, timestamp = start\<rparr>"
  by (auto simp add: isRateLimited_def Let_def split: option.splits)

lemma isRateLimited_within:
  "messageRateLimits st u = Some \<lparr>count = k, timestamp = start\<rparr> \<Longrightarrow> t < start + 1000 \<Longrightarrow>
   fst (isRateLimited st u t) = (5 \<le> k) \<and>
   messageRateLimits (snd (isRateLimited st u t)) u = Some \<lparr>count = Suc k, timestamp = start\<rparr>"
  by (auto simp add: isRateLimited_def Let_def)

lemma isRateLimited_other:
  "v \<noteq> u \<Longrightarrow> messageRateLimits (snd (isRateLimited st v t)) u = messageRateLimits st u"
  by (auto simp add: isRateLimited_def Let_def split: option.splits)

lemma rate_calls_within:
  "messageRateLimits st u = Some \<lparr>count = k, timestamp = start\<rparr> \<Longrightarrow> \<forall>t \<in> set ts. t < start + 1000 \<Longrightarrow>
   fst (rate_calls st u ts) = map (\<lambda>i. 5 \<le> k + i) [0..<length ts] \<and>
   messageRateLimits (snd (rate_calls st u ts)) u = Some \<lparr>count = k + length ts, timestamp = start\<rparr>"
proof (induction ts arbitrary: st k)
  case Nil
  then show ?case by simp
next
  case (Cons t ts)
  obtain l st1 where l: "isRateLimited st u t = (l, st1)" by (cases "isRateLimited st u t")
  have w: "l = (5 \<le> k) \<and> messageRateLimits st1 u = Some \<lparr>count = Suc k, timestamp = start\<rparr>"
    using isRateLimited_within [where st=st and u=u and k=k and start=start and t=t] Cons.prems l by simp
  have ih: "fst (rate_calls st1 u ts) = map (\<lambda>i. 5 \<le> Suc k + i) [0..<length ts] \<and>
       messageRateLimits (snd (rate_calls st1 u ts)) u = Some \<lparr>count = Suc k + length ts, timestamp = start\<rparr>"
    using Cons.IH [where st=st1 and k="Suc k"] w Cons.prems by simp
  have m: "map (\<lambda>i. 5 \<le> k + i) [0..<Suc (length ts)] = (5 \<le> k) # map (\<lambda>i. 5 \<le> Suc k + i) [0..<length ts]"
    by (simp add: upt_conv_Cons map_Suc_upt [symmetric] del: upt_Suc)
  show ?case
    using l w ih m by (simp add: split_def del: upt_Suc)
qed


lemma sendMessage_limited_iff:
  assumes "truthy (get_field fs ''chatId'')" "truthy (get_field fs ''content'')"
  shows "(sendMessage st s (Fields fs) callback now =
            Inr (snd (isRateLimited st (resolve st s) now),
                 [SocketEmit s (ErrorEvent ''Rate limit exceeded. Please slow down.'' ''RATE_LIMIT'')]))
         = fst (isRateLimited st (resolve st s) now)"
  using assms
  by (auto simp add: sendMessage_def sendError_def sendMessage_emit_def Let_def split_def
           split: option.splits)

text \<open>
  X3. The limiter on its own. When a call of a user opens a window at \<open>start\<close> (the user
  has no entry, or the
  entry's window began at least 1000 ms before), then of that call and the calls that
  follow before \<open>start + 1000\<close> exactly the first five are allowed and every further one
  is limited (the result \<open>True\<close> of \<^verbatim>\<open>isRateLimited\<close>); a call at \<open>start + 1000\<close> or later is allowed and starts a new window with
  count 1. Calls of other users leave the user's entry alone, and the \<^verbatim>\<open>sendMessage\<close>
  handler answers a valid payload with the \<^verbatim>\<open>RATE_LIMIT\<close> error exactly when the limiter
  says so.
\<close>

theorem rate_limit_window:
  "((case messageRateLimits st u of None \<Rightarrow> True | Some e \<Rightarrow> timestamp e + 1000 \<le> start) \<and>
    (\<forall>t \<in> set ts. t < start + 1000) \<and> start + 1000 \<le> later \<longrightarrow>
      fst (rate_calls st u (start # ts)) = map (\<lambda>i. 5 \<le> i) [0..<Suc (length ts)] \<and>
      fst (isRateLimited (snd (rate_calls st u (start # ts))) u later) = False \<and>
      messageRateLimits (snd (isRateLimited (snd (rate_calls st u (start # ts))) u later)) u
        = Some \<lparr>count = 1, timestamp = later\<rparr>) \<and>
   (v \<noteq> u \<longrightarrow> messageRateLimits (snd (isRateLimited st v start)) u = messageRateLimits st u) \<and>
   (truthy (get_field fs ''chatId'') \<and> truthy (get_field fs ''content'') \<longrightarrow>
      (sendMessage st s (Fields fs) callback start =
         Inr (snd (isRateLimited st (resolve st s) start),
              [SocketEmit s (ErrorEvent ''Rate limit exceeded. Please slow down.'' ''RATE_LIMIT'')]))
      = fst (isRateLimited st (resolve st s) start))"
proof (intro conjI impI)
  assume a: "(case messageRateLimits st u of None \<Rightarrow> True | Some e \<Rightarrow> timestamp e + 1000 \<le> start) \<and>
    (\<forall>t \<in> set ts. t < start + 1000) \<and> start + 1000 \<le> later"
  obtain l st1 where l: "isRateLimited st u start = (l, st1)" by (cases "isRateLimited st u start")
  have o: "l = False \<and> messageRateLimits st1 u = Some \<lparr>count = 1, timestamp = start\<rparr>"
    using isRateLimited_open [where st=st and u=u and start=start] a l by simp
  have w: "fst (rate_calls st1 u ts) = map (\<lambda>i. 5 \<le> 1 + i) [0..<length ts] \<and>
       messageRateLimits (snd (rate_calls st1 u ts)) u = Some \<lparr>count = 1 + length ts, timestamp = start\<rparr>"
    using rate_calls_within [where st=st1 and u=u and k=1 and start=start and ts=ts] o a by simp
  have m: "map (\<lambda>i. 5 \<le> i) [0..<Suc (length ts)] = False # map (\<lambda>i. 5 \<le> 1 + i) [0..<length ts]"
    by (simp add: upt_conv_Cons map_Suc_upt [symmetric] del: upt_Suc)
  show "fst (rate_calls st u (start # ts)) = map (\<lambda>i. 5 \<le> i) [0..<Suc (length ts)]"
    using l o w m by (simp add: split_def del: upt_Suc)
  have e: "snd (rate_calls st u (start # ts)) = snd (rate_calls st1 u ts)"
    using l by (simp add: split_def Let_def)
  have x: "case messageRateLimits (snd (rate_calls st1 u ts)) u of None \<Rightarrow> True
             | Some e \<Rightarrow> timestamp e + 1000 \<le> later"
    using w a by simp
  show "fst (isRateLimited (snd (rate_calls st u (start # ts))) u later) = False"
    using isRateLimited_open [OF x] e by simp
  show "messageRateLimits (snd (isRateLimited (snd (rate_calls st u (start # ts))) u later)) u
        = Some \<lparr>count = 1, timestamp = later\<rparr>"
    using isRateLimited_open [OF x] e by simp
next
  assume "v \<noteq> u"
  then show "messageRateLimits (snd (isRateLimited st v start)) u = messageRateLimits st u"
    by (rule isRateLimited_other)
next
  assume "truthy (get_field fs ''chatId'') \<and> truthy (get_field fs ''content'')"
  then show "(sendMessage st s (Fields fs) callback start =
         Inr (snd (isRateLimited st (resolve st s) start),
              [SocketEmit s (ErrorEvent ''Rate limit exceeded. Please slow down.'' ''RATE_LIMIT'')]))
      = fst (isRateLimited st (resolve st s) start)"
    using sendMessage_limited_iff by simp
qed

theorem rate_limit_window_witness:
  "fst (rate_calls init (JStr ''u1'') [0, 10, 20, 30, 40, 50, 999])
     = [False, False, False, False, False, True, True] \<and>
   fst (isRateLimited (snd (rate_calls init (JStr ''u1'') [0, 10, 20, 30, 40, 50, 999])) (JStr ''u1'') 1000)
     = False \<and>
   messageRateLimits (snd (isRateLimited init (JStr ''u2'') 0)) (JStr ''u1'') = None \<and>
   (sendMessage init ''A'' (Fields [(''chatId'', JStr ''r1''), (''content'', JStr ''hi'')]) True 0 =
      Inr (snd (isRateLimited init (resolve init ''A'') 0),
           [SocketEmit ''A'' (ErrorEvent ''Rate limit exceeded. Please slow down.'' ''RATE_LIMIT'')]))
     = fst (isRateLimited init (resolve init ''A'') 0)"
proof -
  have v: "truthy (get_field [(''chatId'', JStr ''r1''), (''content'', JStr ''hi'')] ''chatId'') \<and>
      truthy (get_field [(''chatId'', JStr ''r1''), (''content'', JStr ''hi'')] ''content'')"
    by (simp add: get_field_def)
  have hyp: "(case messageRateLimits init (JStr ''u1'') of None \<Rightarrow> True | Some e \<Rightarrow> timestamp e + 1000 \<le> 0) \<and>
      (\<forall>t \<in> set [10, 20, 30, 40, 50, 999]. t < (0::int) + 1000) \<and> (0::int) + 1000 \<le> 1000"
    by (simp add: init_def)
  have m: "map (\<lambda>i. 5 \<le> i) [0..<Suc (length [10, 20, 30, 40, 50, 999::int])]
      = [False, False, False, False, False, True, True]"
    by (simp add: upt_conv_Cons)
  have n: "JStr ''u2'' \<noteq> JStr ''u1''" "messageRateLimits init (JStr ''u1'') = None"
    by (simp_all add: init_def)
  show ?thesis
    using rate_limit_window [where st=init and u="JStr ''u1''" and start=0 and ts="[10, 20, 30, 40, 50, 999]"
      and later=1000 and v="JStr ''u2''" and fs="[(''chatId'', JStr ''r1''), (''content'', JStr ''hi'')]"
      and s="''A''" and callback=True] hyp m n v
    by (simp del: rate_calls.simps)
qed

section \<open>Validation of \<^verbatim>\<open>sendMessage\<close>\<close>

lemma sendMessage_falsy:
  "\<not> truthy (get_field fs ''chatId'') \<or> \<not> truthy (get_field fs ''content'') \<Longrightarrow>
   sendMessage st s (Fields fs) callback now =
     Inr (st, [SocketEmit s (ErrorEvent ''Chat ID and content are required.'' ''MISSING_FIELDS'')])"
  by (auto simp add: sendMessage_def sendError_def Let_def)

text \<open>An event without any payload throws where the handler destructures its argument.\<close>

lemma sendMessage_without_payload: "sendMessage st s NoPayload callback now = Inl TypeError"
  by (simp add: sendMessage_def)

text \<open>
  C7 fails for an event without a payload. A client that emits \<^verbatim>\<open>sendMessage\<close> with no
  argument (or with \<^verbatim>\<open>null\<close>) sends a payload that lacks both \<^verbatim>\<open>chatId\<close> and \<^verbatim>\<open>content\<close>; the
  handler destructures its first parameter before the test \<^verbatim>\<open>!chatId || !content\<close>, so it
  throws a TypeError and no \<^verbatim>\<open>MISSING_FIELDS\<close> error is emitted. The same event with the empty
  object as payload is answered with \<^verbatim>\<open>MISSING_FIELDS\<close> on the socket.
\<close>

theorem sendMessage_no_payload_throws:
  "run [(0, Connect ''A''), (1, SendMessage ''A'' NoPayload False)] init = Inl TypeError \<and>
   run [(0, Connect ''A''), (1, SendMessage ''A'' (Fields []) False)] init
     = Inr (init\<lparr>onlineUsers := [JStr ''A'' \<mapsto> ''A''], sockets := {''A''},
                 rooms := (\<lambda>_. {})(''A'' := {JStr ''A''})\<rparr>,
            [SocketBroadcast ''A'' (UserOnline (JStr ''A'')),
             SocketEmit ''A'' (ErrorEvent ''Chat ID and content are required.'' ''MISSING_FIELDS'')])"
  by (simp add: machine_defs init_def)

text \<open>
  X2. A \<^verbatim>\<open>sendMessage\<close> whose payload is an object that lacks \<^verbatim>\<open>chatId\<close> or lacks \<^verbatim>\<open>content\<close> has exactly one
  effect, the \<^verbatim>\<open>error\<close> event with code \<^verbatim>\<open>MISSING_FIELDS\<close> emitted on the originating
  socket: it reaches that socket only, it is not a call of the acknowledgement callback,
  and the whole state (rate entries, room membership, registry, cache, timers, suspended
  handlers) is unchanged.
\<close>

theorem missing_fields_rejected:
  "map_of fs ''chatId'' = None \<or> map_of fs ''content'' = None \<Longrightarrow>
   (\<exists>eff. sendMessage st s (Fields fs) callback now = Inr (st, [eff]) \<and>
      eff = SocketEmit s (ErrorEvent ''Chat ID and content are required.'' ''MISSING_FIELDS'') \<and>
      (\<forall>r. delivered st eff r = (r = s)) \<and>
      (\<forall>a. eff \<noteq> Callback s a))"
proof -
  assume "map_of fs ''chatId'' = None \<or> map_of fs ''content'' = None"
  then have "\<not> truthy (get_field fs ''chatId'') \<or> \<not> truthy (get_field fs ''content'')"
    by (auto simp add: get_field_def)
  then show ?thesis
    by (simp add: sendMessage_falsy)
qed

theorem missing_fields_rejected_witness:
  "sendMessage init ''A'' (Fields [(''content'', JStr ''hi'')]) True 7 =
     Inr (init, [SocketEmit ''A'' (ErrorEvent ''Chat ID and content are required.'' ''MISSING_FIELDS'')]) \<and>
   sendMessage init ''A'' (Fields [(''chatId'', JStr ''r1'')]) True 7 =
     Inr (init, [SocketEmit ''A'' (ErrorEvent ''Chat ID and content are required.'' ''MISSING_FIELDS'')])"
  using missing_fields_rejected [of "[(''content'', JStr ''hi'')]" init "''A''" True 7]
    missing_fields_rejected [of "[(''chatId'', JStr ''r1'')]" init "''A''" True 7]
  by simp

lemma map_of_without: "map_of [f \<leftarrow> fs. fst f \<noteq> k] k = None"
  by (auto simp add: map_of_eq_None_iff)

text \<open>
  C10. A \<^verbatim>\<open>sendMessage\<close> whose \<^verbatim>\<open>chatId\<close> or \<^verbatim>\<open>content\<close> is present and is the empty string
  is rejected with \<^verbatim>\<open>MISSING_FIELDS\<close>, and the handler's result is the one it gives for the
  same payload without that field.
\<close>

theorem empty_string_is_missing:
  "map_of fs ''chatId'' = Some (JStr '''') \<or> map_of fs ''content'' = Some (JStr '''') \<Longrightarrow>
   sendMessage st s (Fields fs) callback now =
     Inr (st, [SocketEmit s (ErrorEvent ''Chat ID and content are required.'' ''MISSING_FIELDS'')]) \<and>
   (map_of fs ''chatId'' = Some (JStr '''') \<longrightarrow>
      sendMessage st s (Fields fs) callback now =
      sendMessage st s (Fields [f \<leftarrow> fs. fst f \<noteq> ''chatId'']) callback now) \<and>
   (map_of fs ''content'' = Some (JStr '''') \<longrightarrow>
      sendMessage st s (Fields fs) callback now =
      sendMessage st s (Fields [f \<leftarrow> fs. fst f \<noteq> ''content'']) callback now)"
proof -
  assume a: "map_of fs ''chatId'' = Some (JStr '''') \<or> map_of fs ''content'' = Some (JStr '''')"
  then have f: "\<not> truthy (get_field fs ''chatId'') \<or> \<not> truthy (get_field fs ''content'')"
    by (auto simp add: get_field_def)
  have c: "\<not> truthy (get_field [f \<leftarrow> fs. fst f \<noteq> ''chatId''] ''chatId'')"
    by (simp add: get_field_def map_of_without)
  have d: "\<not> truthy (get_field [f \<leftarrow> fs. fst f \<noteq> ''content''] ''content'')"
    by (simp add: get_field_def map_of_without)
  show ?thesis
    using f c d by (simp add: sendMessage_falsy)
qed

theorem empty_string_is_missing_witness:
  "sendMessage init ''A'' (Fields [(''chatId'', JStr ''''), (''content'', JStr ''hi'')]) True 7 =
     Inr (init, [SocketEmit ''A'' (ErrorEvent ''Chat ID and content are required.'' ''MISSING_FIELDS'')]) \<and>
   sendMessage init ''A'' (Fields [(''chatId'', JStr ''''), (''content'', JStr ''hi'')]) True 7 =
     sendMessage init ''A'' (Fields [(''content'', JStr ''hi'')]) True 7 \<and>
   sendMessage init ''A'' (Fields [(''chatId'', JStr ''r1''), (''content'', JStr '''')]) True 7 =
     sendMessage init ''A'' (Fields [(''chatId'', JStr ''r1'')]) True 7"
  using empty_string_is_missing [of "[(''chatId'', JStr ''''), (''content'', JStr ''hi'')]" init "''A''" True 7]
    empty_string_is_missing [of "[(''chatId'', JStr ''r1''), (''content'', JStr '''')]" init "''A''" True 7]
  by auto


section \<open>The sender without a profile\<close>

lemma isRateLimited_frame:
  "isRateLimited st u now = (l, st1) \<Longrightarrow> st1 = st\<lparr>messageRateLimits := messageRateLimits st1\<rparr>"
  by (auto simp add: isRateLimited_def Let_def split: option.splits if_splits)

lemma isRateLimited_userCache:
  "isRateLimited st u now = (l, st1) \<Longrightarrow> userCache st1 = userCache st \<and> timers st1 = timers st \<and> pending st1 = pending st"
  using isRateLimited_frame [of st u now l st1]
  by (metis (no_types, lifting) state.select_convs state.surjective state.update_convs(3))

text \<open>
  C8. A \<^verbatim>\<open>sendMessage\<close> that passes validation and the rate limiter, whose sender is not in
  the cache, is suspended on the store; when the store answers that there is no such user,
  or fails, the handler still broadcasts \<^verbatim>\<open>receiveMessage\<close> to the room, with the sender
  \<^verbatim>\<open>{ _id: userId, name: "Unknown User" }\<close>, and acknowledges; the cache and the timers are
  what they were, so the miss is not cached.
\<close>

theorem unknown_sender_fallback:
  "truthy (get_field fs ''chatId'') \<and> truthy (get_field fs ''content'') \<and>
   isRateLimited st (resolve st s) now = (False, st1) \<and>
   userCache st (resolve st s) = None \<and> (reply = NoSuchUser \<or> reply = LookupFailed) \<Longrightarrow>
   sendMessage st s (Fields fs) callback now =
     Inr (st1\<lparr>pending := pending st1 @
            [SendLookup s (resolve st s) (get_field fs ''chatId'') (get_field fs ''content'') callback]\<rparr>, []) \<and>
   handle later (StoreReply (length (pending st1)) reply)
       (st1\<lparr>pending := pending st1 @
            [SendLookup s (resolve st s) (get_field fs ''chatId'') (get_field fs ''content'') callback]\<rparr>) =
     Inr (st1,
          [RoomEmit (get_field fs ''chatId'') (ReceiveMessage
             \<lparr>rm_id = None, rm_chatId = get_field fs ''chatId'', rm_senderId = Some (resolve st s),
              rm_sender = IdName (resolve st s) ''Unknown User'',
              rm_content = get_field fs ''content'', rm_createdAt = later, rm_status = None\<rparr>)]
          @ (if callback then [Callback s MessageSent] else [])) \<and>
   userCache st1 = userCache st \<and> timers st1 = timers st \<and>
   (\<forall>st2 chatId content.
      resume st2 (SendLookup s (resolve st s) chatId content callback) reply later =
        (st2,
         [RoomEmit chatId (ReceiveMessage
            \<lparr>rm_id = None, rm_chatId = chatId, rm_senderId = Some (resolve st s),
             rm_sender = IdName (resolve st s) ''Unknown User'',
             rm_content = content, rm_createdAt = later, rm_status = None\<rparr>)]
         @ (if callback then [Callback s MessageSent] else [])))"
proof -
  assume a: "truthy (get_field fs ''chatId'') \<and> truthy (get_field fs ''content'') \<and>
   isRateLimited st (resolve st s) now = (False, st1) \<and>
   userCache st (resolve st s) = None \<and> (reply = NoSuchUser \<or> reply = LookupFailed)"
  have c: "userCache st1 = userCache st \<and> timers st1 = timers st \<and> pending st1 = pending st"
    using a isRateLimited_userCache by blast
  have g: "getUserDetails st1 (resolve st s) = None"
    using a c by (simp add: getUserDetails_def)
  have r: "\<And>st2 chatId content.
      resume st2 (SendLookup s (resolve st s) chatId content callback) reply later =
        (st2,
         [RoomEmit chatId (ReceiveMessage
            \<lparr>rm_id = None, rm_chatId = chatId, rm_senderId = Some (resolve st s),
             rm_sender = IdName (resolve st s) ''Unknown User'',
             rm_content = content, rm_createdAt = later, rm_status = None\<rparr>)]
         @ (if callback then [Callback s MessageSent] else []))"
    using a by (auto simp add: resume_def getUserDetails_reply_def sendMessage_emit_def)
  have s1: "sendMessage st s (Fields fs) callback now =
     Inr (st1\<lparr>pending := pending st1 @
            [SendLookup s (resolve st s) (get_field fs ''chatId'') (get_field fs ''content'') callback]\<rparr>, [])"
    using a g by (simp add: sendMessage_def Let_def)
  have h: "handle later (StoreReply (length (pending st1)) reply)
       (st1\<lparr>pending := pending st1 @
            [SendLookup s (resolve st s) (get_field fs ''chatId'') (get_field fs ''content'') callback]\<rparr>) =
     Inr (resume st1 (SendLookup s (resolve st s) (get_field fs ''chatId'') (get_field fs ''content'') callback)
            reply later)"
    by (simp add: handle_def)
  show ?thesis
    using c r s1 h by simp
qed

theorem unknown_sender_fallback_witness:
  "run [(0, Connect ''A''),
        (5, SendMessage ''A'' (Fields [(''chatId'', JStr ''r1''), (''content'', JStr ''hi'')]) True),
        (9, StoreReply 0 LookupFailed)] init
   = Inr (init\<lparr>onlineUsers := [JStr ''A'' \<mapsto> ''A''], sockets := {''A''},
               rooms := (\<lambda>_. {})(''A'' := {JStr ''A''}),
               messageRateLimits := [JStr ''A'' \<mapsto> \<lparr>count = 1, timestamp = 5\<rparr>]\<rparr>,
          [SocketBroadcast ''A'' (UserOnline (JStr ''A'')),
           RoomEmit (JStr ''r1'') (ReceiveMessage
             \<lparr>rm_id = None, rm_chatId = JStr ''r1'', rm_senderId = Some (JStr ''A''),
              rm_sender = IdName (JStr ''A'') ''Unknown User'',
              rm_content = JStr ''hi'', rm_createdAt = 9, rm_status = None\<rparr>),
           Callback ''A'' MessageSent])"
proof -
  let ?fs = "[(''chatId'', JStr ''r1''), (''content'', JStr ''hi'')]"
  let ?st = "init\<lparr>onlineUsers := [JStr ''A'' \<mapsto> ''A''], sockets := {''A''},
               rooms := (\<lambda>_. {})(''A'' := {JStr ''A''})\<rparr>"
  let ?st1 = "?st\<lparr>messageRateLimits := [JStr ''A'' \<mapsto> \<lparr>count = 1, timestamp = 5\<rparr>]\<rparr>"
  have c: "step 0 (Connect ''A'') init = Inr (?st, [SocketBroadcast ''A'' (UserOnline (JStr ''A''))])"
    by (simp add: step_def handle_def fire_timers_def connection_def init_def)
  have res: "resolve ?st ''A'' = JStr ''A''"
    by (simp add: resolve_def map_get_def js_or_def init_def)
  have hyp: "truthy (get_field ?fs ''chatId'') \<and> truthy (get_field ?fs ''content'') \<and>
     isRateLimited ?st (resolve ?st ''A'') 5 = (False, ?st1) \<and>
     userCache ?st (resolve ?st ''A'') = None \<and> (LookupFailed = NoSuchUser \<or> LookupFailed = LookupFailed)"
    by (simp add: resolve_def map_get_def js_or_def get_field_def isRateLimited_def init_def Let_def)
  have f5: "fire_timers 5 ?st = ?st" by (simp add: fire_timers_def init_def)
  have p1: "pending ?st1 = []" by (simp add: init_def)
  note t = unknown_sender_fallback [where fs="?fs" and st="?st" and s="''A''" and now=5 and ?st1.0="?st1"
      and reply=LookupFailed and callback=True and later=9, OF hyp]
  let ?st2 = "?st1\<lparr>pending := pending ?st1 @ [SendLookup ''A'' (resolve ?st ''A'') (get_field ?fs ''chatId'') (get_field ?fs ''content'') True]\<rparr>"
  have f9: "fire_timers 9 ?st2 = ?st2" by (simp add: fire_timers_def init_def)
  have s5: "step 5 (SendMessage ''A'' (Fields ?fs) True) ?st = Inr (?st2, [])"
    using t f5 by (simp add: step_def handle_def)
  have s9: "step 9 (StoreReply 0 LookupFailed) ?st2 = Inr (?st1,
          [RoomEmit (JStr ''r1'') (ReceiveMessage
             \<lparr>rm_id = None, rm_chatId = JStr ''r1'', rm_senderId = Some (JStr ''A''),
              rm_sender = IdName (JStr ''A'') ''Unknown User'',
              rm_content = JStr ''hi'', rm_createdAt = 9, rm_status = None\<rparr>),
           Callback ''A'' MessageSent])"
    using t f9 p1 res unfolding step_def by (simp add: get_field_def)
  show ?thesis
    using c s5 s9 by simp
qed

section \<open>Disconnecting\<close>

lemma truthy_resolve: "s \<noteq> [] \<Longrightarrow> truthy (resolve st s)"
  by (simp add: resolve_def js_or_def)

lemma disconnect_clears:
  "s \<noteq> [] \<Longrightarrow>
   \<exists>st1. disconnect st s = Inr (st1, [SocketBroadcast s (UserOffline (resolve st s))]) \<and>
     onlineUsers st1 (resolve st s) = None \<and> onlineUsers st1 (JStr s) = None \<and>
     socketIdToUserId st1 s = None \<and> userRooms st1 (resolve st s) = None \<and>
     (\<forall>k. onlineUsers st k = None \<longrightarrow> onlineUsers st1 k = None) \<and>
     (\<forall>k. userRooms st k = None \<longrightarrow> userRooms st1 k = None)"
  using truthy_resolve [of s st]
  by (simp add: disconnect_def Let_def split: option.splits)

text \<open>
  C4. For a socket (its id is a non-empty string) in any state, bound or never bound, the
  \<^verbatim>\<open>disconnect\<close> handler returns, and run a second time it returns again. After the first
  run \<^verbatim>\<open>onlineUsers\<close> has no entry for the resolved identity nor for the socket id,
  \<^verbatim>\<open>socketIdToUserId\<close> has none for the socket, and \<^verbatim>\<open>userRooms\<close> has none for the resolved
  identity; the second run resolves to the socket id itself and leaves none of these
  entries either.
\<close>

theorem disconnect_idempotent:
  "s \<noteq> [] \<Longrightarrow>
   \<exists>st1 st2. disconnect st s = Inr (st1, [SocketBroadcast s (UserOffline (resolve st s))]) \<and>
     disconnect st1 s = Inr (st2, [SocketBroadcast s (UserOffline (JStr s))]) \<and>
     onlineUsers st1 (resolve st s) = None \<and> onlineUsers st1 (JStr s) = None \<and>
     socketIdToUserId st1 s = None \<and> userRooms st1 (resolve st s) = None \<and>
     resolve st1 s = JStr s \<and>
     onlineUsers st2 (resolve st s) = None \<and> onlineUsers st2 (JStr s) = None \<and>
     socketIdToUserId st2 s = None \<and> userRooms st2 (resolve st s) = None \<and>
     userRooms st2 (JStr s) = None"
proof -
  assume s: "s \<noteq> []"
  obtain st1 where 1: "disconnect st s = Inr (st1, [SocketBroadcast s (UserOffline (resolve st s))])"
     "onlineUsers st1 (resolve st s) = None" "onlineUsers st1 (JStr s) = None"
     "socketIdToUserId st1 s = None" "userRooms st1 (resolve st s) = None"
    using disconnect_clears [OF s, of st] by blast
  have r: "resolve st1 s = JStr s"
    using 1(4) by (simp add: resolve_def map_get_def js_or_def)
  obtain st2 where 2: "disconnect st1 s = Inr (st2, [SocketBroadcast s (UserOffline (resolve st1 s))])"
     "onlineUsers st2 (resolve st1 s) = None"
     "socketIdToUserId st2 s = None" "userRooms st2 (resolve st1 s) = None"
     "\<forall>k. onlineUsers st1 k = None \<longrightarrow> onlineUsers st2 k = None"
     "\<forall>k. userRooms st1 k = None \<longrightarrow> userRooms st2 k = None"
    using disconnect_clears [OF s, of st1] by blast
  show ?thesis
    using 1 2 r by simp
qed

theorem disconnect_idempotent_witness:
  "\<exists>st1 st2.
     disconnect (init\<lparr>socketIdToUserId := [''A'' \<mapsto> JStr ''u1''], onlineUsers := [JStr ''u1'' \<mapsto> ''A''],
                     userRooms := [JStr ''u1'' \<mapsto> {JStr ''r1''}]\<rparr>) ''A''
       = Inr (st1, [SocketBroadcast ''A'' (UserOffline (JStr ''u1''))]) \<and>
     disconnect st1 ''A'' = Inr (st2, [SocketBroadcast ''A'' (UserOffline (JStr ''A''))]) \<and>
     onlineUsers st1 (JStr ''u1'') = None \<and> socketIdToUserId st1 ''A'' = None \<and>
     userRooms st1 (JStr ''u1'') = None \<and>
     onlineUsers st2 (JStr ''u1'') = None \<and> socketIdToUserId st2 ''A'' = None \<and>
     userRooms st2 (JStr ''u1'') = None \<and>
     (\<exists>st3 st4. disconnect init ''B'' = Inr (st3, [SocketBroadcast ''B'' (UserOffline (JStr ''B''))]) \<and>
        disconnect st3 ''B'' = Inr (st4, [SocketBroadcast ''B'' (UserOffline (JStr ''B''))]) \<and>
        onlineUsers st4 (JStr ''B'') = None \<and> socketIdToUserId st4 ''B'' = None \<and> userRooms st4 (JStr ''B'') = None)"
proof -
  let ?st = "init\<lparr>socketIdToUserId := [''A'' \<mapsto> JStr ''u1''], onlineUsers := [JStr ''u1'' \<mapsto> ''A''],
                     userRooms := [JStr ''u1'' \<mapsto> {JStr ''r1''}]\<rparr>"
  have a: "''A'' \<noteq> []" and b: "''B'' \<noteq> []" by simp_all
  have r: "resolve ?st ''A'' = JStr ''u1''" "resolve init ''B'' = JStr ''B''"
    by (simp_all add: resolve_def map_get_def js_or_def init_def)
  obtain st1 st2 where 1:
     "disconnect ?st ''A'' = Inr (st1, [SocketBroadcast ''A'' (UserOffline (JStr ''u1''))])"
     "disconnect st1 ''A'' = Inr (st2, [SocketBroadcast ''A'' (UserOffline (JStr ''A''))])"
     "onlineUsers st1 (JStr ''u1'') = None" "socketIdToUserId st1 ''A'' = None"
     "userRooms st1 (JStr ''u1'') = None"
     "onlineUsers st2 (JStr ''u1'') = None" "socketIdToUserId st2 ''A'' = None"
     "userRooms st2 (JStr ''u1'') = None"
    using disconnect_idempotent [OF a, of ?st] unfolding r by blast
  obtain st3 st4 where 2:
     "disconnect init ''B'' = Inr (st3, [SocketBroadcast ''B'' (UserOffline (JStr ''B''))])"
     "disconnect st3 ''B'' = Inr (st4, [SocketBroadcast ''B'' (UserOffline (JStr ''B''))])"
     "onlineUsers st4 (JStr ''B'') = None" "socketIdToUserId st4 ''B'' = None"
     "userRooms st4 (JStr ''B'') = None"
    using disconnect_idempotent [OF b, of init] unfolding r by blast
  show ?thesis
    using 1 2 by blast
qed


section \<open>One user on two connections\<close>

lemma authenticate_binds:
  "truthy (get_field fs ''userId'') \<Longrightarrow> authenticate st s (Fields fs) = Inr (st1, e) \<Longrightarrow>
   e = [] \<and>
   socketIdToUserId st1 = (socketIdToUserId st)(s \<mapsto> get_field fs ''userId'') \<and>
   onlineUsers st1 = (onlineUsers st)(get_field fs ''userId'' \<mapsto> s) \<and>
   userRooms st1 = userRooms st \<and> sockets st1 = sockets st \<and> rooms st1 = rooms st"
  by (auto simp add: authenticate_def Let_def split: option.splits)

lemma addUserToRoom_eq:
  "addUserToRoom st u r =
     st\<lparr>userRooms := (userRooms st)(u \<mapsto> insert r (case userRooms st u of None \<Rightarrow> {} | Some s \<Rightarrow> s))\<rparr>"
  by (simp add: addUserToRoom_def Let_def split: option.splits)

lemma joinChat_joins:
  "joinChat st s r = Inr (st1, e) \<Longrightarrow>
   e = [] \<and> socketIdToUserId st1 = socketIdToUserId st \<and> onlineUsers st1 = onlineUsers st \<and>
   is_member st1 (resolve st s) r \<and> r \<in> rooms st1 s \<and> sockets st1 = sockets st"
  by (auto simp add: joinChat_def Let_def socket_join_def addUserToRoom_eq is_member_def
           split: option.splits)

lemma resolve_bound: "socketIdToUserId st s = Some u \<Longrightarrow> truthy u \<Longrightarrow> resolve st s = u"
  by (simp add: resolve_def map_get_def js_or_def)

lemma disconnect_bound:
  "socketIdToUserId st a = Some u \<Longrightarrow> truthy u \<Longrightarrow>
   \<exists>st1. disconnect st a = Inr (st1, [SocketBroadcast a (UserOffline u)]) \<and>
     onlineUsers st1 u = None \<and> userRooms st1 u = None \<and>
     socketIdToUserId st1 = (socketIdToUserId st)(a := None) \<and>
     (\<forall>b. b \<noteq> a \<longrightarrow> rooms st1 b = rooms st b) \<and> sockets st1 = sockets st"
  using resolve_bound [of st a u]
  by (simp add: disconnect_def Let_def split: option.splits)

text \<open>
  C9. A userId authenticates on connection \<open>a\<close>, then on connection \<open>b\<close>, and \<open>b\<close> joins a
  room. Both connections then resolve to the userId, and the online entry of the userId
  points to \<open>b\<close>. When \<open>a\<close> disconnects, its handler broadcasts \<^verbatim>\<open>userOffline\<close> for the userId
  and deletes the userId's online entry and its whole set of rooms, although \<open>b\<close> is still
  bound to the userId and still subscribed to the room at the transport.
\<close>

theorem second_login_torn_down:
  "a \<noteq> b \<and> truthy u \<and> get_field fa ''userId'' = u \<and> get_field fb ''userId'' = u \<and>
   authenticate st a (Fields fa) = Inr (st1, e1) \<and>
   authenticate st1 b (Fields fb) = Inr (st2, e2) \<and>
   joinChat st2 b r = Inr (st3, e3) \<Longrightarrow>
   resolve st3 a = u \<and> resolve st3 b = u \<and> onlineUsers st3 u = Some b \<and>
   is_member st3 u r \<and> r \<in> rooms st3 b \<and>
   (\<exists>st4. disconnect st3 a = Inr (st4, [SocketBroadcast a (UserOffline u)]) \<and>
      onlineUsers st4 u = None \<and> userRooms st4 u = None \<and>
      socketIdToUserId st4 b = Some u \<and> resolve st4 b = u \<and> r \<in> rooms st4 b)"
proof -
  assume h: "a \<noteq> b \<and> truthy u \<and> get_field fa ''userId'' = u \<and> get_field fb ''userId'' = u \<and>
   authenticate st a (Fields fa) = Inr (st1, e1) \<and>
   authenticate st1 b (Fields fb) = Inr (st2, e2) \<and>
   joinChat st2 b r = Inr (st3, e3)"
  have 1: "socketIdToUserId st1 = (socketIdToUserId st)(a \<mapsto> u)"
    using h authenticate_binds [of fa st a st1 e1] by simp
  have 2: "socketIdToUserId st2 = (socketIdToUserId st1)(b \<mapsto> u)" "onlineUsers st2 = (onlineUsers st1)(u \<mapsto> b)"
    using h authenticate_binds [of fb st1 b st2 e2] by simp_all
  have rb: "resolve st2 b = u"
    using 2 h by (simp add: resolve_bound)
  have 3: "socketIdToUserId st3 = socketIdToUserId st2" "onlineUsers st3 = onlineUsers st2"
     "is_member st3 u r" "r \<in> rooms st3 b"
    using h joinChat_joins [of st2 b r st3 e3] rb by simp_all
  have ba: "socketIdToUserId st3 a = Some u" and bb: "socketIdToUserId st3 b = Some u"
    using 1 2 3 h by simp_all
  obtain st4 where 4: "disconnect st3 a = Inr (st4, [SocketBroadcast a (UserOffline u)])"
     "onlineUsers st4 u = None" "userRooms st4 u = None"
     "socketIdToUserId st4 = (socketIdToUserId st3)(a := None)"
     "\<forall>c. c \<noteq> a \<longrightarrow> rooms st4 c = rooms st3 c"
    using disconnect_bound [OF ba, of ] h by blast
  have b4: "socketIdToUserId st4 b = Some u"
    using 4 bb h by auto
  show ?thesis
    using h ba bb b4 2 3 4 by (auto simp add: resolve_bound)
qed


theorem second_login_torn_down_witness:
  "authenticate init ''A'' (Fields [(''userId'', JStr ''u1'')]) =
     Inr (init\<lparr>socketIdToUserId := [''A'' \<mapsto> JStr ''u1''], onlineUsers := [JStr ''u1'' \<mapsto> ''A''],
               pending := [AuthLookup (JStr ''u1'')]\<rparr>, []) \<and>
   authenticate (init\<lparr>socketIdToUserId := [''A'' \<mapsto> JStr ''u1''], onlineUsers := [JStr ''u1'' \<mapsto> ''A''],
               pending := [AuthLookup (JStr ''u1'')]\<rparr>) ''B'' (Fields [(''userId'', JStr ''u1'')]) =
     Inr (init\<lparr>socketIdToUserId := [''A'' \<mapsto> JStr ''u1'', ''B'' \<mapsto> JStr ''u1''],
               onlineUsers := [JStr ''u1'' \<mapsto> ''B''],
               pending := [AuthLookup (JStr ''u1''), AuthLookup (JStr ''u1'')]\<rparr>, []) \<and>
   joinChat (init\<lparr>socketIdToUserId := [''A'' \<mapsto> JStr ''u1'', ''B'' \<mapsto> JStr ''u1''],
               onlineUsers := [JStr ''u1'' \<mapsto> ''B''],
               pending := [AuthLookup (JStr ''u1''), AuthLookup (JStr ''u1'')]\<rparr>) ''B'' (JStr ''r1'') =
     Inr (init\<lparr>socketIdToUserId := [''A'' \<mapsto> JStr ''u1'', ''B'' \<mapsto> JStr ''u1''],
               onlineUsers := [JStr ''u1'' \<mapsto> ''B''],
               pending := [AuthLookup (JStr ''u1''), AuthLookup (JStr ''u1'')],
               rooms := (\<lambda>_. {})(''B'' := {JStr ''r1''}),
               userRooms := [JStr ''u1'' \<mapsto> {JStr ''r1''}]\<rparr>, []) \<and>
   (\<exists>st4. disconnect (init\<lparr>socketIdToUserId := [''A'' \<mapsto> JStr ''u1'', ''B'' \<mapsto> JStr ''u1''],
               onlineUsers := [JStr ''u1'' \<mapsto> ''B''],
               pending := [AuthLookup (JStr ''u1''), AuthLookup (JStr ''u1'')],
               rooms := (\<lambda>_. {})(''B'' := {JStr ''r1''}),
               userRooms := [JStr ''u1'' \<mapsto> {JStr ''r1''}]\<rparr>) ''A''
        = Inr (st4, [SocketBroadcast ''A'' (UserOffline (JStr ''u1''))]) \<and>
      onlineUsers st4 (JStr ''u1'') = None \<and> userRooms st4 (JStr ''u1'') = None \<and>
      socketIdToUserId st4 ''B'' = Some (JStr ''u1'') \<and> resolve st4 ''B'' = JStr ''u1'' \<and>
      JStr ''r1'' \<in> rooms st4 ''B'')"
proof -
  let ?f = "[(''userId'', JStr ''u1'')]"
  let ?st1 = "init\<lparr>socketIdToUserId := [''A'' \<mapsto> JStr ''u1''], onlineUsers := [JStr ''u1'' \<mapsto> ''A''],
               pending := [AuthLookup (JStr ''u1'')]\<rparr>"
  let ?st2 = "init\<lparr>socketIdToUserId := [''A'' \<mapsto> JStr ''u1'', ''B'' \<mapsto> JStr ''u1''],
               onlineUsers := [JStr ''u1'' \<mapsto> ''B''],
               pending := [AuthLookup (JStr ''u1''), AuthLookup (JStr ''u1'')]\<rparr>"
  let ?st3 = "init\<lparr>socketIdToUserId := [''A'' \<mapsto> JStr ''u1'', ''B'' \<mapsto> JStr ''u1''],
               onlineUsers := [JStr ''u1'' \<mapsto> ''B''],
               pending := [AuthLookup (JStr ''u1''), AuthLookup (JStr ''u1'')],
               rooms := (\<lambda>_. {})(''B'' := {JStr ''r1''}),
               userRooms := [JStr ''u1'' \<mapsto> {JStr ''r1''}]\<rparr>"
  have 1: "authenticate init ''A'' (Fields ?f) = Inr (?st1, [])"
    by (simp add: authenticate_def get_field_def getUserDetails_def init_def Let_def)
  have 2: "authenticate ?st1 ''B'' (Fields ?f) = Inr (?st2, [])"
    by (simp add: authenticate_def get_field_def getUserDetails_def init_def Let_def)
  have 3: "joinChat ?st2 ''B'' (JStr ''r1'') = Inr (?st3, [])"
    by (simp add: joinChat_def resolve_def map_get_def js_or_def socket_join_def addUserToRoom_def init_def Let_def)
  have h: "''A'' \<noteq> ''B'' \<and> truthy (JStr ''u1'') \<and> get_field ?f ''userId'' = JStr ''u1'' \<and>
      get_field ?f ''userId'' = JStr ''u1'' \<and>
      authenticate init ''A'' (Fields ?f) = Inr (?st1, []) \<and>
      authenticate ?st1 ''B'' (Fields ?f) = Inr (?st2, []) \<and>
      joinChat ?st2 ''B'' (JStr ''r1'') = Inr (?st3, [])"
    using 1 2 3 by (simp add: get_field_def)
  show ?thesis
    using second_login_torn_down [OF h] 1 2 3 by blast
qed

section \<open>The identity of a connection\<close>

lemma fire_timers_binding: "socketIdToUserId (fire_timers now st) = socketIdToUserId st"
  by (simp add: fire_timers_def)

lemma removeUserFromRoom_binding: "socketIdToUserId (removeUserFromRoom st u r) = socketIdToUserId st"
  by (simp add: removeUserFromRoom_def Let_def split: option.splits)

lemma isRateLimited_binding: "socketIdToUserId (snd (isRateLimited st u now)) = socketIdToUserId st"
  by (simp add: isRateLimited_def Let_def split: option.splits)

lemma sendMessage_binding:
  "sendMessage st s p callback now = Inr (st1, e) \<Longrightarrow> socketIdToUserId st1 = socketIdToUserId st"
  using isRateLimited_binding [of st "resolve st s" now]
  by (auto simp add: sendMessage_def Let_def split_def split: payload.splits if_splits option.splits)

lemma resume_binding: "socketIdToUserId (fst (resume st k reply now)) = socketIdToUserId st"
  by (simp add: resume_def getUserDetails_reply_def split_def split: pending.splits store_reply.splits)

lemma handle_binding:
  "handle now ev st = Inr (st1, e) \<Longrightarrow> ev \<noteq> Disconnect s \<Longrightarrow>
   socketIdToUserId st1 s = (case auth_id s ev of Some u \<Rightarrow> Some u | None \<Rightarrow> socketIdToUserId st s)"
proof (cases ev)
  case (Authenticate s' p)
  assume "handle now ev st = Inr (st1, e)"
  then show ?thesis using Authenticate
    by (auto simp add: handle_def auth_id_def authenticate_def Let_def split: payload.splits option.splits if_splits)
next
  case (SendMessage s' p callback)
  assume "handle now ev st = Inr (st1, e)"
  then show ?thesis using SendMessage sendMessage_binding [of st s' p callback now st1 e]
    by (simp add: handle_def auth_id_def)
next
  case (Disconnect s')
  assume "handle now ev st = Inr (st1, e)" "ev \<noteq> Disconnect s"
  then show ?thesis using Disconnect
    by (auto simp add: handle_def auth_id_def disconnect_def Let_def split: option.splits if_splits)
next
  case (StoreReply n reply)
  assume "handle now ev st = Inr (st1, e)"
  then show ?thesis using StoreReply
      resume_binding [of "st\<lparr>pending := take n (pending st) @ drop (Suc n) (pending st)\<rparr>" "pending st ! n" reply now]
    by (auto simp add: handle_def auth_id_def split: if_splits)
qed (auto simp add: handle_def auth_id_def connection_def joinChat_def leaveChat_def typing_def
       stopTyping_def markMessagesRead_def pingServer_def socket_join_def socket_leave_def
       addUserToRoom_def removeUserFromRoom_binding Let_def split: payload.splits option.splits if_splits)

lemma run_binding:
  "run evs st = Inr (st1, e) \<Longrightarrow> \<forall>t. (t, Disconnect s) \<notin> set evs \<Longrightarrow>
   socketIdToUserId st1 s = (case auth_ids s evs of [] \<Rightarrow> socketIdToUserId st s | u # us \<Rightarrow> Some (last (u # us)))"
proof (induction evs arbitrary: st e)
  case Nil
  then show ?case by simp
next
  case (Cons tev evs)
  obtain t ev where tev: "tev = (t, ev)" by (cases tev)
  obtain st2 e2 where 1: "step t ev st = Inr (st2, e2)"
    using Cons.prems(1) tev by (auto split: sum.splits)
  obtain e3 where 2: "run evs st2 = Inr (st1, e3)"
    using Cons.prems(1) tev 1 by (auto split: sum.splits)
  have nd: "ev \<noteq> Disconnect s" "\<forall>t. (t, Disconnect s) \<notin> set evs"
    using Cons.prems(2) tev by auto
  have b: "socketIdToUserId st2 s = (case auth_id s ev of Some u \<Rightarrow> Some u | None \<Rightarrow> socketIdToUserId st s)"
    using handle_binding [of t ev "fire_timers t st" st2 e2 s] 1 nd(1)
    by (simp add: step_def fire_timers_binding split: option.splits)
  have ih: "socketIdToUserId st1 s =
      (case auth_ids s evs of [] \<Rightarrow> socketIdToUserId st2 s | u # us \<Rightarrow> Some (last (u # us)))"
    using Cons.IH [OF 2 nd(2)] .
  show ?case
    using ih b tev by (auto split: option.splits list.splits)
qed

lemma auth_id_truthy: "auth_id s ev = Some u \<Longrightarrow> truthy u"
  by (auto simp add: auth_id_def split: event.splits payload.splits if_splits)

lemma auth_ids_truthy: "u \<in> set (auth_ids s evs) \<Longrightarrow> truthy u"
  by (induction s evs rule: auth_ids.induct) (auto split: option.splits dest: auth_id_truthy)

lemma run_resolve:
  assumes "socketIdToUserId st s = None" "\<forall>t. (t, Disconnect s) \<notin> set evs" "run evs st = Inr (st1, e)"
  shows "resolve st1 s = spec_identity s evs"
proof (cases "auth_ids s evs")
  case Nil
  then show ?thesis
    using run_binding [OF assms(3) assms(2)] assms(1)
    by (simp add: resolve_def map_get_def js_or_def spec_identity_def)
next
  case (Cons u us)
  have "truthy (last (u # us))"
    using auth_ids_truthy [of "last (u # us)" s evs] Cons last_in_set [of "u # us"] by simp
  then show ?thesis
    using run_binding [OF assms(3) assms(2)] Cons
    by (simp add: resolve_def map_get_def js_or_def spec_identity_def)
qed


lemma handlers_use_resolve:
  "joinChat st s chatId = Inr (addUserToRoom (socket_join st s chatId) (resolve st s) chatId, []) \<and>
   leaveChat st s chatId = Inr (removeUserFromRoom (socket_leave st s chatId) (resolve st s) chatId, []) \<and>
   markMessagesRead st s (Fields fs) =
     Inr (st, [RoomEmit (get_field fs ''chatId'') (MessagesRead (get_field fs ''chatId'') (resolve st s))]) \<and>
   (truthy (get_field fs ''chatId'') \<and> truthy (get_field fs ''content'') \<longrightarrow>
      (fst (isRateLimited st (resolve st s) now) \<longrightarrow>
         sendMessage st s (Fields fs) callback now =
           Inr (snd (isRateLimited st (resolve st s) now),
                [SocketEmit s (ErrorEvent ''Rate limit exceeded. Please slow down.'' ''RATE_LIMIT'')])) \<and>
      (\<not> fst (isRateLimited st (resolve st s) now) \<longrightarrow>
         sendMessage st s (Fields fs) callback now =
           (case getUserDetails (snd (isRateLimited st (resolve st s) now)) (resolve st s) of
              Some details \<Rightarrow>
                Inr (snd (isRateLimited st (resolve st s) now),
                     sendMessage_emit s (get_field fs ''chatId'') (resolve st s) (Some details)
                       (get_field fs ''content'') now callback)
            | None \<Rightarrow>
                Inr (snd (isRateLimited st (resolve st s) now)
                       \<lparr>pending := pending (snd (isRateLimited st (resolve st s) now)) @
                          [SendLookup s (resolve st s) (get_field fs ''chatId'')
                             (get_field fs ''content'') callback]\<rparr>, [])))) \<and>
   (\<exists>st2. disconnect st s = Inr (st2, [SocketBroadcast s (UserOffline (resolve st s))]) \<and>
      userRooms st2 (resolve st s) = None)"
  by (simp add: joinChat_def leaveChat_def markMessagesRead_def sendMessage_def sendError_def
        disconnect_def Let_def split_def split: option.splits)

text \<open>
  C6. Take a connection that is not bound at the start and any run of the server in which
  it does not disconnect. Then the identity that \<^verbatim>\<open>joinChat\<close>, \<^verbatim>\<open>leaveChat\<close>, \<^verbatim>\<open>sendMessage\<close>,
  \<^verbatim>\<open>markMessagesRead\<close> and \<^verbatim>\<open>disconnect\<close> use next is the userId bound by the connection's
  most recent binding \<^verbatim>\<open>authenticate\<close>, and the connection id when there is none: rooms are
  tracked under it, the rate limiter and the profile lookup are keyed by it, and it is the
  sender of the message, the reader of \<^verbatim>\<open>messagesRead\<close> and the user of \<^verbatim>\<open>userOffline\<close>.
\<close>

theorem identity_resolution:
  "socketIdToUserId st s = None \<and> (\<forall>t. (t, Disconnect s) \<notin> set evs) \<and> run evs st = Inr (st1, effs) \<Longrightarrow>
   resolve st1 s = spec_identity s evs \<and>
   (auth_ids s evs = [] \<longrightarrow> spec_identity s evs = JStr s) \<and>
   joinChat st1 s chatId =
     Inr (addUserToRoom (socket_join st1 s chatId) (spec_identity s evs) chatId, []) \<and>
   leaveChat st1 s chatId =
     Inr (removeUserFromRoom (socket_leave st1 s chatId) (spec_identity s evs) chatId, []) \<and>
   markMessagesRead st1 s (Fields fs) =
     Inr (st1, [RoomEmit (get_field fs ''chatId'')
                  (MessagesRead (get_field fs ''chatId'') (spec_identity s evs))]) \<and>
   (truthy (get_field fs ''chatId'') \<and> truthy (get_field fs ''content'') \<longrightarrow>
      (fst (isRateLimited st1 (spec_identity s evs) now) \<longrightarrow>
         sendMessage st1 s (Fields fs) callback now =
           Inr (snd (isRateLimited st1 (spec_identity s evs) now),
                [SocketEmit s (ErrorEvent ''Rate limit exceeded. Please slow down.'' ''RATE_LIMIT'')])) \<and>
      (\<not> fst (isRateLimited st1 (spec_identity s evs) now) \<longrightarrow>
         sendMessage st1 s (Fields fs) callback now =
           (case getUserDetails (snd (isRateLimited st1 (spec_identity s evs) now)) (spec_identity s evs) of
              Some details \<Rightarrow>
                Inr (snd (isRateLimited st1 (spec_identity s evs) now),
                     sendMessage_emit s (get_field fs ''chatId'') (spec_identity s evs) (Some details)
                       (get_field fs ''content'') now callback)
            | None \<Rightarrow>
                Inr (snd (isRateLimited st1 (spec_identity s evs) now)
                       \<lparr>pending := pending (snd (isRateLimited st1 (spec_identity s evs) now)) @
                          [SendLookup s (spec_identity s evs) (get_field fs ''chatId'')
                             (get_field fs ''content'') callback]\<rparr>, [])))) \<and>
   (\<exists>st2. disconnect st1 s = Inr (st2, [SocketBroadcast s (UserOffline (spec_identity s evs))]) \<and>
      userRooms st2 (spec_identity s evs) = None)"
proof -
  assume a: "socketIdToUserId st s = None \<and> (\<forall>t. (t, Disconnect s) \<notin> set evs) \<and> run evs st = Inr (st1, effs)"
  have r: "resolve st1 s = spec_identity s evs"
    using a run_resolve [of st s evs st1 effs] by simp
  have u: "auth_ids s evs = [] \<longrightarrow> spec_identity s evs = JStr s"
    by (simp add: spec_identity_def)
  show ?thesis
    using handlers_use_resolve [of st1 s chatId fs now callback] u unfolding r by blast
qed

theorem identity_resolution_witness:
  "(\<exists>st1 effs.
      run [(0, Connect ''A''), (1, Authenticate ''A'' (Fields [(''userId'', JStr ''u1'')])),
           (2, Authenticate ''A'' (Fields [(''userId'', JStr ''u2'')])),
           (3, Authenticate ''A'' (Fields []))] init = Inr (st1, effs) \<and>
      resolve st1 ''A'' = JStr ''u2'' \<and>
      markMessagesRead st1 ''A'' (Fields [(''chatId'', JStr ''r1'')]) =
        Inr (st1, [RoomEmit (JStr ''r1'') (MessagesRead (JStr ''r1'') (JStr ''u2''))])) \<and>
   (\<exists>st1 effs.
      run [(0, Connect ''B''), (1, JoinChat ''B'' (JStr ''r1''))] init = Inr (st1, effs) \<and>
      resolve st1 ''B'' = JStr ''B'' \<and>
      userRooms st1 (JStr ''B'') = Some {JStr ''r1''} \<and>
      sendMessage st1 ''B'' (Fields [(''chatId'', JStr ''r1''), (''content'', JStr ''hi'')]) False 5 =
        Inr (st1\<lparr>messageRateLimits := [JStr ''B'' \<mapsto> \<lparr>count = 1, timestamp = 5\<rparr>],
                 pending := [SendLookup ''B'' (JStr ''B'') (JStr ''r1'') (JStr ''hi'') False]\<rparr>, []) \<and>
      (\<exists>st2. disconnect st1 ''B'' = Inr (st2, [SocketBroadcast ''B'' (UserOffline (JStr ''B''))])))"
proof -
  let ?ea = "[(0, Connect ''A''), (1, Authenticate ''A'' (Fields [(''userId'', JStr ''u1'')])),
           (2, Authenticate ''A'' (Fields [(''userId'', JStr ''u2'')])),
           (3, Authenticate ''A'' (Fields []))]"
  let ?eb = "[(0, Connect ''B''), (1, JoinChat ''B'' (JStr ''r1''))]"
  let ?fs = "[(''chatId'', JStr ''r1''), (''content'', JStr ''hi'')]"
  let ?sb = "init\<lparr>onlineUsers := [JStr ''B'' \<mapsto> ''B''], sockets := {''B''},
                 rooms := (\<lambda>_. {})(''B'' := {JStr ''r1'', JStr ''B''}),
                 userRooms := [JStr ''B'' \<mapsto> {JStr ''r1''}]\<rparr>"
  have ra: "\<exists>st1 effs. run ?ea init = Inr (st1, effs)"
    by (simp add: step_def handle_def fire_timers_def connection_def authenticate_def get_field_def
          getUserDetails_def init_def Let_def)
  have b: "run ?eb init = Inr (?sb, [SocketBroadcast ''B'' (UserOnline (JStr ''B''))])"
    by (simp add: machine_defs init_def)
  have ia: "spec_identity ''A'' ?ea = JStr ''u2''"
    by (simp add: spec_identity_def auth_id_def get_field_def)
  have ib: "spec_identity ''B'' ?eb = JStr ''B''"
    by (simp add: spec_identity_def auth_id_def)
  have n: "socketIdToUserId init ''A'' = None" "socketIdToUserId init ''B'' = None"
    "\<forall>t. (t, Disconnect ''A'') \<notin> set ?ea" "\<forall>t. (t, Disconnect ''B'') \<notin> set ?eb"
    by (simp_all add: init_def)
  obtain sa ea where a: "run ?ea init = Inr (sa, ea)" using ra by blast
  have pa: "socketIdToUserId init ''A'' = None \<and> (\<forall>t. (t, Disconnect ''A'') \<notin> set ?ea) \<and>
      run ?ea init = Inr (sa, ea)"
    using n a by blast
  have pb: "socketIdToUserId init ''B'' = None \<and> (\<forall>t. (t, Disconnect ''B'') \<notin> set ?eb) \<and>
      run ?eb init = Inr (?sb, [SocketBroadcast ''B'' (UserOnline (JStr ''B''))])"
    using n b by blast
  note ua = identity_resolution [where chatId=JNull and fs="[(''chatId'', JStr ''r1'')]" and now=0
      and callback=False, OF pa]
  note ub = identity_resolution [where chatId=JNull and fs="?fs" and now=5 and callback=False, OF pb]
  have ta: "resolve sa ''A'' = JStr ''u2'' \<and>
      markMessagesRead sa ''A'' (Fields [(''chatId'', JStr ''r1'')]) =
        Inr (sa, [RoomEmit (JStr ''r1'') (MessagesRead (JStr ''r1'') (JStr ''u2''))])"
    using conjunct1 [OF ua] conjunct1 [OF conjunct2 [OF conjunct2 [OF conjunct2 [OF conjunct2 [OF ua]]]]]
    unfolding ia by (simp add: get_field_def)
  have tb: "resolve ?sb ''B'' = JStr ''B'' \<and>
      (\<exists>st2. disconnect ?sb ''B'' = Inr (st2, [SocketBroadcast ''B'' (UserOffline (JStr ''B''))]))"
    using conjunct1 [OF ub]
      conjunct2 [OF conjunct2 [OF conjunct2 [OF conjunct2 [OF conjunct2 [OF conjunct2 [OF ub]]]]]]
    unfolding ib by blast
  have v: "truthy (get_field ?fs ''chatId'') \<and> truthy (get_field ?fs ''content'')"
    by (simp add: get_field_def)
  have rl: "isRateLimited ?sb (JStr ''B'') 5 =
      (False, ?sb\<lparr>messageRateLimits := [JStr ''B'' \<mapsto> \<lparr>count = 1, timestamp = 5\<rparr>]\<rparr>)"
    by (simp add: isRateLimited_def init_def Let_def)
  have sm: "sendMessage ?sb ''B'' (Fields ?fs) False 5 =
        Inr (?sb\<lparr>messageRateLimits := [JStr ''B'' \<mapsto> \<lparr>count = 1, timestamp = 5\<rparr>],
                 pending := [SendLookup ''B'' (JStr ''B'') (JStr ''r1'') (JStr ''hi'') False]\<rparr>, [])"
    using mp [OF conjunct2 [OF mp [OF conjunct1 [OF conjunct2 [OF conjunct2 [OF conjunct2 [OF conjunct2
                [OF conjunct2 [OF ub]]]]]] v]]]
    unfolding ib rl by (simp add: getUserDetails_def get_field_def init_def)
  have ur: "userRooms ?sb (JStr ''B'') = Some {JStr ''r1''}"
    by simp
  show ?thesis
    using a b ta tb sm ur by blast
qed

section \<open>What a sent message does\<close>




lemma emit_not_persisted:
  "\<not> list_ex (is_create c) (sendMessage_emit s chatId userId details content now callback) \<and>
   \<not> list_ex (is_sent_broadcast c b) (sendMessage_emit s chatId userId details content now callback)"
  by (simp add: sendMessage_emit_def)



















section \<open>The cache and its timers\<close>

lemma fold_delete_other:
  "u \<notin> snd ` set xs \<Longrightarrow> fold (\<lambda>(due, userId) m. m(userId := None)) xs m u = m u"
  by (induction xs arbitrary: m) auto

lemma fold_delete_due:
  "u \<in> snd ` set xs \<Longrightarrow> fold (\<lambda>(due, userId) m. m(userId := None)) xs m u = None"
proof (induction xs arbitrary: m)
  case Nil
  then show ?case by simp
next
  case (Cons x xs)
  show ?case
  proof (cases "u \<in> snd ` set xs")
    case True
    then show ?thesis using Cons.IH by (simp del: fun_upd_apply)
  next
    case False
    then obtain d' where "x = (d', u)" using Cons.prems by (cases x) auto
    then have "fold (\<lambda>(due, userId) m. m(userId := None)) (x # xs) m u
        = fold (\<lambda>(due, userId) m. m(userId := None)) xs (m(u := None)) u"
      by (simp del: fun_upd_apply)
    also have "\<dots> = (m(u := None)) u"
      using False by (rule fold_delete_other)
    finally show ?thesis by (simp only: fun_upd_same)
  qed
qed

lemma timers_of_user:
  "filter (\<lambda>x. snd x = u) ts = [(d, u)] \<Longrightarrow> (e, u) \<in> set ts \<longleftrightarrow> e = d"
proof -
  assume a: "filter (\<lambda>x. snd x = u) ts = [(d, u)]"
  have "(e, u) \<in> set ts \<longleftrightarrow> (e, u) \<in> set (filter (\<lambda>x. snd x = u) ts)" by simp
  then show ?thesis using a by simp
qed

lemma fire_timers_before:
  assumes "cached_until st u p d" "t < d"
  shows "cached_until (fire_timers t st) u p d"
proof -
  have f: "filter (\<lambda>x. snd x = u) (timers st) = [(d, u)]"
    using assms(1) by (simp add: cached_until_def)
  have "u \<notin> snd ` set (filter (\<lambda>(due, userId). due \<le> t) (timers st))"
    using timers_of_user [OF f] assms(2) by auto
  then have c: "userCache (fire_timers t st) u = userCache st u"
    by (simp add: fire_timers_def fold_delete_other)
  have "filter (\<lambda>x. snd x = u) (filter (\<lambda>(due, userId). \<not> due \<le> t) (timers st))
        = filter (\<lambda>(due, userId). \<not> due \<le> t) (filter (\<lambda>x. snd x = u) (timers st))"
    by (simp add: conj_commute)
  then have tm: "filter (\<lambda>x. snd x = u) (timers (fire_timers t st)) = [(d, u)]"
    using f assms(2) by (simp add: fire_timers_def)
  show ?thesis
    using assms(1) c tm by (simp add: cached_until_def fire_timers_def)
qed

lemma fire_timers_after:
  assumes "cached_until st u p d" "d \<le> t"
  shows "userCache (fire_timers t st) u = None"
proof -
  have f: "filter (\<lambda>x. snd x = u) (timers st) = [(d, u)]"
    using assms(1) by (simp add: cached_until_def)
  have "(d, u) \<in> set (timers st)"
    using timers_of_user [OF f, of d] by simp
  then have "u \<in> snd ` set (filter (\<lambda>(due, userId). due \<le> t) (timers st))"
    using assms(2) by force
  then show ?thesis
    by (simp add: fire_timers_def fold_delete_due)
qed

lemma isRateLimited_cached:
  "cached_until st u p d \<Longrightarrow> cached_until (snd (isRateLimited st v now)) u p d"
  by (auto simp add: isRateLimited_def cached_until_def Let_def split: option.splits)

lemma getUserDetails_reply_cached:
  "cached_until st u p d \<Longrightarrow> v \<noteq> u \<Longrightarrow> cached_until (snd (getUserDetails_reply st v reply now)) u p d"
  by (auto simp add: getUserDetails_reply_def cached_until_def split: store_reply.splits)

lemma pending_drop_cached:
  "cached_until st u p d \<Longrightarrow> cached_until (st\<lparr>pending := take n (pending st) @ drop (Suc n) (pending st)\<rparr>) u p d"
proof -
  assume a: "cached_until st u p d"
  then have "\<forall>k \<in> set (pending st). pending_user k \<noteq> u"
    by (simp add: cached_until_def filter_empty_conv)
  then have "\<forall>k \<in> set (take n (pending st) @ drop (Suc n) (pending st)). pending_user k \<noteq> u"
    by (auto dest: in_set_takeD in_set_dropD)
  then show ?thesis
    using a by (simp add: cached_until_def filter_empty_conv)
qed

lemma handle_cached:
  assumes c: "cached_until st u p d" and h: "handle now ev st = Inr (st1, e)"
  shows "cached_until st1 u p d"
proof (cases ev)
  case (Authenticate s pl)
  then show ?thesis using c h
    by (auto simp add: handle_def authenticate_def getUserDetails_def cached_until_def Let_def
          split: payload.splits option.splits if_splits)
next
  case (SendMessage s pl callback)
  show ?thesis
  proof (cases pl)
    case NoPayload
    then show ?thesis using h SendMessage by (simp add: handle_def sendMessage_def)
  next
    case (Fields fs)
    let ?st = "snd (isRateLimited st (resolve st s) now)"
    have c1: "cached_until ?st u p d" using c by (rule isRateLimited_cached)
    show ?thesis using h SendMessage Fields c c1
      by (auto simp add: handle_def sendMessage_def getUserDetails_def cached_until_def Let_def split_def
            split: option.splits if_splits)
  qed
next
  case (StoreReply n reply)
  show ?thesis
  proof (cases "n < length (pending st)")
    case False
    then show ?thesis using h StoreReply c by (simp add: handle_def)
  next
    case True
    let ?st = "st\<lparr>pending := take n (pending st) @ drop (Suc n) (pending st)\<rparr>"
    have c1: "cached_until ?st u p d" using c by (rule pending_drop_cached)
    have "pending st ! n \<in> set (pending st)" using True by simp
    then have nu: "pending_user (pending st ! n) \<noteq> u"
      using c by (simp add: cached_until_def filter_empty_conv)
    have r: "st1 = fst (resume ?st (pending st ! n) reply now)"
      using h StoreReply True by (simp add: handle_def)
    show ?thesis
      using getUserDetails_reply_cached [OF c1, of "pending_user (pending st ! n)" reply now] nu
      unfolding r by (cases "pending st ! n") (simp_all add: resume_def split_def Let_def)
  qed
next
  case (Disconnect s)
  then show ?thesis using c h
    by (auto simp add: handle_def disconnect_def cached_until_def Let_def split: option.splits if_splits)
qed (use c h in \<open>auto simp add: handle_def connection_def joinChat_def leaveChat_def typing_def
       stopTyping_def markMessagesRead_def pingServer_def socket_join_def socket_leave_def
       addUserToRoom_def removeUserFromRoom_def cached_until_def Let_def
       split: payload.splits option.splits if_splits\<close>)


lemma run_cached:
  "cached_until st u p d \<Longrightarrow> run evs st = Inr (st1, e) \<Longrightarrow> \<forall>x \<in> set evs. fst x < d \<Longrightarrow>
   cached_until st1 u p d"
proof (induction evs arbitrary: st e)
  case Nil
  then show ?case by simp
next
  case (Cons tev evs)
  obtain t ev where tev: "tev = (t, ev)" by (cases tev)
  obtain st2 e2 where 1: "step t ev st = Inr (st2, e2)"
    using Cons.prems(2) tev by (auto split: sum.splits)
  obtain e3 where 2: "run evs st2 = Inr (st1, e3)"
    using Cons.prems(2) tev 1 by (auto split: sum.splits)
  have "t < d" using Cons.prems(3) tev by simp
  then have "cached_until (fire_timers t st) u p d"
    using Cons.prems(1) by (simp add: fire_timers_before)
  then have "cached_until st2 u p d"
    using 1 handle_cached by (simp add: step_def)
  then show ?case
    using Cons.IH [OF _ 2] Cons.prems(3) by simp
qed

lemma filter_single_rest:
  assumes "filter P xs = [xs ! n]" "n < length xs" "P (xs ! n)"
  shows "filter P (take n xs @ drop (Suc n) xs) = []"
proof -
  have "xs = take n xs @ xs ! n # drop (Suc n) xs"
    using assms(2) by (rule id_take_nth_drop)
  then have "filter P xs = filter P (take n xs) @ xs ! n # filter P (drop (Suc n) xs)"
    using assms(3) by (metis filter.simps(2) filter_append)
  then have "length (filter P (take n xs)) + length (filter P (drop (Suc n) xs)) = 0"
    using assms(1) by (metis add_Suc_right length_Cons length_append list.size(3) nat.inject)
  then show ?thesis by simp
qed

lemma store_reply_caches:
  assumes "filter (\<lambda>k. pending_user k = u) (pending st) = [pending st ! n]" "n < length (pending st)"
    "pending_user (pending st ! n) = u" "filter (\<lambda>x. snd x = u) (timers st) = []"
    "handle start (StoreReply n (Found p)) st = Inr (st0, e0)"
  shows "cached_until st0 u p (start + 300000)"
proof -
  let ?st = "st\<lparr>pending := take n (pending st) @ drop (Suc n) (pending st)\<rparr>"
  have r: "st0 = fst (resume ?st (pending st ! n) (Found p) start)"
    using assms(2,5) by (simp add: handle_def)
  have f: "filter (\<lambda>k. pending_user k = u) (take n (pending st) @ drop (Suc n) (pending st)) = []"
    using filter_single_rest [of "\<lambda>k. pending_user k = u" "pending st" n] assms(1,2,3) by simp
  then have g: "filter (\<lambda>k. pending_user k = u) (take n (pending st)) = []"
      "filter (\<lambda>k. pending_user k = u) (drop (Suc n) (pending st)) = []"
    by simp_all
  show ?thesis
    using assms(3,4) g unfolding r
    by (cases "pending st ! n")
       (simp_all add: resume_def getUserDetails_reply_def cached_until_def Let_def)
qed

text \<open>
  X1. When the store answers the only outstanding lookup of a user who has no pending
  eviction, the profile is cached with one eviction five minutes later. As long as the
  server runs events before that time, whatever they are, the entry and its single timer
  stay, no handler is suspended on a lookup of the user, and \<^verbatim>\<open>getUserDetails\<close> answers from
  the cache; hits schedule nothing, so from the eviction time on the cache misses.
\<close>

theorem cache_entry_ttl:
  "filter (\<lambda>k. pending_user k = u) (pending st) = [pending st ! n] \<and> n < length (pending st) \<and>
   pending_user (pending st ! n) = u \<and> filter (\<lambda>x. snd x = u) (timers st) = [] \<and>
   handle start (StoreReply n (Found p)) st = Inr (st0, e0) \<and>
   run evs st0 = Inr (st1, e1) \<and> (\<forall>x \<in> set evs. fst x < start + 300000) \<Longrightarrow>
   cached_until st1 u p (start + 300000) \<and>
   (t < start + 300000 \<longrightarrow> getUserDetails (fire_timers t st1) u = Some p) \<and>
   (start + 300000 \<le> t \<longrightarrow> getUserDetails (fire_timers t st1) u = None)"
proof -
  assume a: "filter (\<lambda>k. pending_user k = u) (pending st) = [pending st ! n] \<and> n < length (pending st) \<and>
   pending_user (pending st ! n) = u \<and> filter (\<lambda>x. snd x = u) (timers st) = [] \<and>
   handle start (StoreReply n (Found p)) st = Inr (st0, e0) \<and>
   run evs st0 = Inr (st1, e1) \<and> (\<forall>x \<in> set evs. fst x < start + 300000)"
  have 0: "cached_until st0 u p (start + 300000)"
    using a store_reply_caches [of u st n start p st0 e0] by simp
  have 1: "cached_until st1 u p (start + 300000)"
    using a 0 run_cached [of st0 u p "start + 300000" evs st1 e1] by simp
  have 2: "t < start + 300000 \<longrightarrow> getUserDetails (fire_timers t st1) u = Some p"
    using fire_timers_before [OF 1, of t] by (auto simp add: cached_until_def getUserDetails_def)
  have 3: "start + 300000 \<le> t \<longrightarrow> getUserDetails (fire_timers t st1) u = None"
    using fire_timers_after [OF 1, of t] by (auto simp add: getUserDetails_def)
  show ?thesis using 1 2 3 by simp
qed


theorem cache_entry_ttl_witness:
  "\<exists>st1 e1.
     run [(11, SendMessage ''A'' (Fields [(''chatId'', JStr ''r1''), (''content'', JStr ''hi'')]) False),
          (300009, SendMessage ''A'' (Fields [(''chatId'', JStr ''r1''), (''content'', JStr ''again'')]) False)]
       (init\<lparr>socketIdToUserId := [''A'' \<mapsto> JStr ''u1''], onlineUsers := [JStr ''u1'' \<mapsto> ''A''],
             userCache := [JStr ''u1'' \<mapsto> \<lparr>user_id = ''65f0'', user_name = ''Alice'',
                                             user_email = ''alice@example.org'',
                                             user_avatar = \<lparr>publicId = ''p'', url = ''u''\<rparr>\<rparr>],
             timers := [(300010, JStr ''u1'')]\<rparr>) = Inr (st1, e1) \<and>
     getUserDetails (fire_timers 300009 st1) (JStr ''u1'')
       = Some \<lparr>user_id = ''65f0'', user_name = ''Alice'', user_email = ''alice@example.org'',
               user_avatar = \<lparr>publicId = ''p'', url = ''u''\<rparr>\<rparr> \<and>
     getUserDetails (fire_timers 300010 st1) (JStr ''u1'') = None"
proof -
  let ?alice = "\<lparr>user_id = ''65f0'', user_name = ''Alice'', user_email = ''alice@example.org'',
             user_avatar = \<lparr>publicId = ''p'', url = ''u''\<rparr>\<rparr>"
  let ?waiting = "init\<lparr>socketIdToUserId := [''A'' \<mapsto> JStr ''u1''], onlineUsers := [JStr ''u1'' \<mapsto> ''A''],
               pending := [AuthLookup (JStr ''u1'')]\<rparr>"
  let ?cached = "init\<lparr>socketIdToUserId := [''A'' \<mapsto> JStr ''u1''], onlineUsers := [JStr ''u1'' \<mapsto> ''A''],
             userCache := [JStr ''u1'' \<mapsto> ?alice], timers := [(300010, JStr ''u1'')]\<rparr>"
  let ?evs = "[(11::int, SendMessage ''A'' (Fields [(''chatId'', JStr ''r1''), (''content'', JStr ''hi'')]) False),
          (300009, SendMessage ''A'' (Fields [(''chatId'', JStr ''r1''), (''content'', JStr ''again'')]) False)]"
  have h: "handle 10 (StoreReply 0 (Found ?alice)) ?waiting = Inr (?cached, [])"
    by (simp add: handle_def resume_def getUserDetails_reply_def init_def)
  have "\<exists>st1 e1. run ?evs ?cached = Inr (st1, e1)"
    by (simp add: machine_defs init_def)
  then obtain st1 e1 where r: "run ?evs ?cached = Inr (st1, e1)" by blast
  have p1: "filter (\<lambda>k. pending_user k = JStr ''u1'') (pending ?waiting) = [pending ?waiting ! 0] \<and>
      0 < length (pending ?waiting) \<and> pending_user (pending ?waiting ! 0) = JStr ''u1'' \<and>
      filter (\<lambda>x. snd x = JStr ''u1'') (timers ?waiting) = []"
    by (simp add: init_def)
  have p2: "\<forall>x \<in> set ?evs. fst x < 10 + 300000"
    by simp
  have pre: "filter (\<lambda>k. pending_user k = JStr ''u1'') (pending ?waiting) = [pending ?waiting ! 0] \<and>
      0 < length (pending ?waiting) \<and> pending_user (pending ?waiting ! 0) = JStr ''u1'' \<and>
      filter (\<lambda>x. snd x = JStr ''u1'') (timers ?waiting) = [] \<and>
      handle 10 (StoreReply 0 (Found ?alice)) ?waiting = Inr (?cached, []) \<and>
      run ?evs ?cached = Inr (st1, e1) \<and> (\<forall>x \<in> set ?evs. fst x < 10 + 300000)"
    using p1 h r p2 by blast
  have a: "getUserDetails (fire_timers 300009 st1) (JStr ''u1'') = Some ?alice"
    using cache_entry_ttl [OF pre, of 300009] by simp
  have b: "getUserDetails (fire_timers 300010 st1) (JStr ''u1'') = None"
    using cache_entry_ttl [OF pre, of 300010] by simp
  show ?thesis
    using r a b by blast
qed


text \<open>
  C5 fails when two lookups of one user overlap. A client authenticates (the pre-fetch
  queries the store) and sends a message 1 ms later, before the store has answered: the
  cache misses again and the store is queried a second time. The replies arrive at 10 ms
  and at 20 ms; each one stores the profile and schedules its own eviction, so the entry
  stored at 20 ms has the timers of 300010 and 300020. A message at 300015 ms, inside
  the five minutes of that entry, finds the cache empty (the first timer has run) and
  the handler is suspended on a third query of the store.
\<close>

theorem overlapping_lookups_evict_early:
  "run [(0, Connect ''A''),
        (0, Authenticate ''A'' (Fields [(''userId'', JStr ''u1'')])),
        (1, SendMessage ''A'' (Fields [(''chatId'', JStr ''r1''), (''content'', JStr ''hi'')]) False),
        (10, StoreReply 0 (Found \<lparr>user_id = ''65f0'', user_name = ''Alice'', user_email = ''alice@example.org'',
                                   user_avatar = \<lparr>publicId = ''p'', url = ''u''\<rparr>\<rparr>)),
        (20, StoreReply 0 (Found \<lparr>user_id = ''65f0'', user_name = ''Alice'', user_email = ''alice@example.org'',
                                   user_avatar = \<lparr>publicId = ''p'', url = ''u''\<rparr>\<rparr>))]
       init
   = Inr (\<lparr>onlineUsers = [JStr ''A'' \<mapsto> ''A'', JStr ''u1'' \<mapsto> ''A''],
           userRooms = Map.empty,
           messageRateLimits = [JStr ''u1'' \<mapsto> \<lparr>count = 1, timestamp = 1\<rparr>],
           socketIdToUserId = [''A'' \<mapsto> JStr ''u1''],
           userCache = [JStr ''u1'' \<mapsto> \<lparr>user_id = ''65f0'', user_name = ''Alice'',
                                          user_email = ''alice@example.org'',
                                          user_avatar = \<lparr>publicId = ''p'', url = ''u''\<rparr>\<rparr>],
           timers = [(300010, JStr ''u1''), (300020, JStr ''u1'')], pending = [], sockets = {''A''},
           rooms = (\<lambda>_. {})(''A'' := {JStr ''A''})\<rparr>,
          [SocketBroadcast ''A'' (UserOnline (JStr ''A'')),
           RoomEmit (JStr ''r1'') (ReceiveMessage
             \<lparr>rm_id = None, rm_chatId = JStr ''r1'', rm_senderId = Some (JStr ''u1''),
              rm_sender = Details \<lparr>user_id = ''65f0'', user_name = ''Alice'',
                                   user_email = ''alice@example.org'',
                                   user_avatar = \<lparr>publicId = ''p'', url = ''u''\<rparr>\<rparr>,
              rm_content = JStr ''hi'', rm_createdAt = 20, rm_status = None\<rparr>)]) \<and>
   run [(0, Connect ''A''),
        (0, Authenticate ''A'' (Fields [(''userId'', JStr ''u1'')])),
        (1, SendMessage ''A'' (Fields [(''chatId'', JStr ''r1''), (''content'', JStr ''hi'')]) False),
        (10, StoreReply 0 (Found \<lparr>user_id = ''65f0'', user_name = ''Alice'', user_email = ''alice@example.org'',
                                   user_avatar = \<lparr>publicId = ''p'', url = ''u''\<rparr>\<rparr>)),
        (20, StoreReply 0 (Found \<lparr>user_id = ''65f0'', user_name = ''Alice'', user_email = ''alice@example.org'',
                                   user_avatar = \<lparr>publicId = ''p'', url = ''u''\<rparr>\<rparr>)),
        (300015, SendMessage ''A'' (Fields [(''chatId'', JStr ''r1''), (''content'', JStr ''again'')]) False)]
       init
   = Inr (\<lparr>onlineUsers = [JStr ''A'' \<mapsto> ''A'', JStr ''u1'' \<mapsto> ''A''],
           userRooms = Map.empty,
           messageRateLimits = [JStr ''u1'' \<mapsto> \<lparr>count = 1, timestamp = 300015\<rparr>],
           socketIdToUserId = [''A'' \<mapsto> JStr ''u1''],
           userCache = Map.empty,
           timers = [(300020, JStr ''u1'')],
           pending = [SendLookup ''A'' (JStr ''u1'') (JStr ''r1'') (JStr ''again'') False],
           sockets = {''A''},
           rooms = (\<lambda>_. {})(''A'' := {JStr ''A''})\<rparr>,
          [SocketBroadcast ''A'' (UserOnline (JStr ''A'')),
           RoomEmit (JStr ''r1'') (ReceiveMessage
             \<lparr>rm_id = None, rm_chatId = JStr ''r1'', rm_senderId = Some (JStr ''u1''),
              rm_sender = Details \<lparr>user_id = ''65f0'', user_name = ''Alice'',
                                   user_email = ''alice@example.org'',
                                   user_avatar = \<lparr>publicId = ''p'', url = ''u''\<rparr>\<rparr>,
              rm_content = JStr ''hi'', rm_createdAt = 20, rm_status = None\<rparr>)])"
  by (simp add: machine_defs init_def)

section \<open>The rate window of \<^verbatim>\<open>sendMessage\<close>\<close>

lemma fire_timers_rates:
  "messageRateLimits (fire_timers now st) = messageRateLimits st \<and>
   socketIdToUserId (fire_timers now st) = socketIdToUserId st"
  by (simp add: fire_timers_def)

lemma resolve_fire_timers: "resolve (fire_timers now st) s = resolve st s"
  by (simp add: resolve_def fire_timers_def)

lemma isRateLimited_rest:
  "userCache (snd (isRateLimited st u now)) = userCache st \<and>
   pending (snd (isRateLimited st u now)) = pending st \<and>
   socketIdToUserId (snd (isRateLimited st u now)) = socketIdToUserId st"
  by (simp add: isRateLimited_def Let_def split: option.splits)

lemma sendMessage_outcome:
  assumes "truthy (get_field fs ''chatId'')" "truthy (get_field fs ''content'')"
  shows "\<exists>st1 effs. sendMessage st s (Fields fs) callback now = Inr (st1, effs) \<and>
     outcome_of st s fs callback now (Inr (st1, effs)) =
       (if fst (isRateLimited st (resolve st s) now) then Limited
        else if userCache st (resolve st s) = None then Waiting else Sent) \<and>
     messageRateLimits st1 = messageRateLimits (snd (isRateLimited st (resolve st s) now)) \<and>
     socketIdToUserId st1 = socketIdToUserId st"
proof -
  obtain l st2 where r: "isRateLimited st (resolve st s) now = (l, st2)"
    by (cases "isRateLimited st (resolve st s) now")
  have k: "userCache st2 = userCache st" "pending st2 = pending st" "socketIdToUserId st2 = socketIdToUserId st"
    using isRateLimited_rest [of st "resolve st s" now] r by simp_all
  show ?thesis
  proof (cases l)
    case True
    then show ?thesis using assms r k
      by (simp add: sendMessage_def sendError_def outcome_of_def Let_def)
  next
    case False
    show ?thesis
    proof (cases "userCache st (resolve st s)")
      case None
      then show ?thesis using assms r k False
        by (simp add: sendMessage_def getUserDetails_def outcome_of_def Let_def)
    next
      case (Some d)
      then show ?thesis using assms r k False
        by (simp add: sendMessage_def getUserDetails_def outcome_of_def sendMessage_emit_def Let_def domI)
    qed
  qed
qed


lemma resolve_cong: "socketIdToUserId st1 = socketIdToUserId st \<Longrightarrow> resolve st1 s = resolve st s"
  by (simp add: resolve_def)

lemma step_send:
  assumes "truthy (get_field fs ''chatId'')" "truthy (get_field fs ''content'')"
  shows "\<exists>st1 effs. step now (SendMessage s (Fields fs) callback) st = Inr (st1, effs) \<and>
     outcome_of (fire_timers now st) s fs callback now (Inr (st1, effs)) =
       (if fst (isRateLimited (fire_timers now st) (resolve st s) now) then Limited
        else if userCache (fire_timers now st) (resolve st s) = None then Waiting else Sent) \<and>
     messageRateLimits st1 = messageRateLimits (snd (isRateLimited (fire_timers now st) (resolve st s) now)) \<and>
     socketIdToUserId st1 = socketIdToUserId st"
proof -
  have h: "step now (SendMessage s (Fields fs) callback) st
      = sendMessage (fire_timers now st) s (Fields fs) callback now"
    by (simp add: step_def handle_def)
  have b: "socketIdToUserId (fire_timers now st) = socketIdToUserId st"
    by (simp add: fire_timers_rates)
  show ?thesis
    using sendMessage_outcome [OF assms, where st="fire_timers now st" and s=s and callback=callback and now=now]
    unfolding h resolve_fire_timers b by blast
qed

lemma step_send_within:
  assumes "truthy (get_field fs ''chatId'')" "truthy (get_field fs ''content'')"
    "messageRateLimits st (resolve st s) = Some \<lparr>count = k, timestamp = start\<rparr>" "now < start + 1000"
  shows "\<exists>st1 effs. step now (SendMessage s (Fields fs) callback) st = Inr (st1, effs) \<and>
     outcome_of (fire_timers now st) s fs callback now (Inr (st1, effs)) \<in> (if 5 \<le> k then {Limited} else {Sent, Waiting}) \<and>
     messageRateLimits st1 (resolve st s) = Some \<lparr>count = Suc k, timestamp = start\<rparr> \<and>
     socketIdToUserId st1 = socketIdToUserId st"
proof -
  have e: "messageRateLimits (fire_timers now st) (resolve st s) = Some \<lparr>count = k, timestamp = start\<rparr>"
    using assms(3) by (simp add: fire_timers_rates)
  show ?thesis
    using step_send [OF assms(1,2), where now=now and s=s and callback=callback and st=st]
      isRateLimited_within [OF e assms(4)]
    by auto
qed

lemma step_send_open:
  assumes "truthy (get_field fs ''chatId'')" "truthy (get_field fs ''content'')"
    "case messageRateLimits st (resolve st s) of None \<Rightarrow> True | Some e \<Rightarrow> timestamp e + 1000 \<le> now"
  shows "\<exists>st1 effs. step now (SendMessage s (Fields fs) callback) st = Inr (st1, effs) \<and>
     outcome_of (fire_timers now st) s fs callback now (Inr (st1, effs)) \<in> {Sent, Waiting} \<and>
     messageRateLimits st1 (resolve st s) = Some \<lparr>count = 1, timestamp = now\<rparr> \<and>
     socketIdToUserId st1 = socketIdToUserId st"
proof -
  have e: "case messageRateLimits (fire_timers now st) (resolve st s) of None \<Rightarrow> True
           | Some e \<Rightarrow> timestamp e + 1000 \<le> now"
    using assms(3) by (simp add: fire_timers_rates)
  show ?thesis
    using step_send [OF assms(1,2), where now=now and s=s and callback=callback and st=st]
      isRateLimited_open [OF e]
    by auto
qed

lemma send_calls_within:
  "messageRateLimits st u = Some \<lparr>count = k, timestamp = start\<rparr> \<Longrightarrow>
   \<forall>c \<in> set calls. case c of (t, s, fs, cb) \<Rightarrow>
      resolve st s = u \<and> truthy (get_field fs ''chatId'') \<and> truthy (get_field fs ''content'') \<Longrightarrow>
   \<forall>c \<in> set calls. fst c < start + 1000 \<Longrightarrow>
   map (\<lambda>out. out = Limited) (fst (send_calls st calls)) = map (\<lambda>i. 5 \<le> k + i) [0..<length calls] \<and>
   Failed \<notin> set (fst (send_calls st calls)) \<and>
   messageRateLimits (snd (send_calls st calls)) u = Some \<lparr>count = k + length calls, timestamp = start\<rparr> \<and>
   socketIdToUserId (snd (send_calls st calls)) = socketIdToUserId st"
proof (induction calls arbitrary: st k)
  case Nil
  then show ?case by simp
next
  case (Cons c calls)
  obtain now s fs cb where c: "c = (now, s, fs, cb)" by (cases c)
  have v: "resolve st s = u" "truthy (get_field fs ''chatId'')" "truthy (get_field fs ''content'')"
    "now < start + 1000"
    using Cons.prems(2,3) c by simp_all
  obtain st1 effs where 1: "step now (SendMessage s (Fields fs) cb) st = Inr (st1, effs)"
    and o: "outcome_of (fire_timers now st) s fs cb now (Inr (st1, effs))
             \<in> (if 5 \<le> k then {Limited} else {Sent, Waiting})"
    and e: "messageRateLimits st1 u = Some \<lparr>count = Suc k, timestamp = start\<rparr>"
    and b: "socketIdToUserId st1 = socketIdToUserId st"
    using step_send_within [OF v(2,3), where st=st and s=s and k=k and start=start and now=now and callback=cb] Cons.prems(1) v(1,4) by auto
  have v1: "\<forall>c \<in> set calls. case c of (t, s, fs, cb) \<Rightarrow>
      resolve st1 s = u \<and> truthy (get_field fs ''chatId'') \<and> truthy (get_field fs ''content'')"
    using Cons.prems(2) resolve_cong [OF b] by auto
  have w1: "\<forall>c \<in> set calls. fst c < start + 1000"
    using Cons.prems(3) by simp
  note ih = Cons.IH [OF e v1 w1]
  have m: "map (\<lambda>i. 5 \<le> k + i) [0..<Suc (length calls)]
      = (5 \<le> k) # map (\<lambda>i. 5 \<le> Suc k + i) [0..<length calls]"
    by (simp add: upt_conv_Cons map_Suc_upt [symmetric] del: upt_Suc)
  have ol: "(outcome_of (fire_timers now st) s fs cb now (Inr (st1, effs)) = Limited) = (5 \<le> k)"
    and onf: "outcome_of (fire_timers now st) s fs cb now (Inr (st1, effs)) \<noteq> Failed"
    using o by (auto split: if_splits)
  show ?case
    using c 1 ih m ol onf b by (simp add: split_def Let_def del: upt_Suc)
qed


lemma resume_rates: "messageRateLimits (fst (resume st k reply now)) = messageRateLimits st"
  by (simp add: resume_def getUserDetails_reply_def split_def split: pending.splits store_reply.splits)

lemma removeUserFromRoom_rates: "messageRateLimits (removeUserFromRoom st u r) = messageRateLimits st"
  by (simp add: removeUserFromRoom_def Let_def split: option.splits)

lemma sendMessage_rates_other:
  assumes "sendMessage st s (Fields fs) callback now = Inr (st1, effs)"
    "\<not> (truthy (get_field fs ''chatId'') \<and> truthy (get_field fs ''content'') \<and> resolve st s = u)"
  shows "messageRateLimits st1 u = messageRateLimits st u"
proof (cases "truthy (get_field fs ''chatId'') \<and> truthy (get_field fs ''content'')")
  case False
  then show ?thesis using assms(1) by (auto simp add: sendMessage_def Let_def)
next
  case True
  then have n: "resolve st s \<noteq> u" using assms(2) by simp
  obtain st2 e2 where r: "sendMessage st s (Fields fs) callback now = Inr (st2, e2)"
    and m: "messageRateLimits st2 = messageRateLimits (snd (isRateLimited st (resolve st s) now))"
    using sendMessage_outcome [where fs=fs and st=st and s=s and callback=callback and now=now] True by blast
  show ?thesis
    using assms(1) r m isRateLimited_other [OF n, where st=st and t=now] by simp
qed

lemma step_rates_other:
  assumes h: "step now ev st = Inr (st1, effs)" and n: "\<not> counts_for u (fire_timers now st) ev"
  shows "messageRateLimits st1 u = messageRateLimits st u"
proof (cases ev)
  case (SendMessage s p callback)
  show ?thesis
  proof (cases p)
    case NoPayload
    then show ?thesis using h SendMessage by (simp add: step_def handle_def sendMessage_def)
  next
    case (Fields fs)
    then show ?thesis
      using h n SendMessage
        sendMessage_rates_other [where st="fire_timers now st" and s=s and fs=fs and callback=callback and now=now and ?st1.0=st1 and effs=effs and u=u]
      by (simp add: step_def handle_def counts_for_def fire_timers_rates)
  qed
next
  case (StoreReply k reply)
  then show ?thesis
    using h resume_rates [of "fire_timers now st\<lparr>pending := take k (pending (fire_timers now st)) @
              drop (Suc k) (pending (fire_timers now st))\<rparr>" "pending (fire_timers now st) ! k" reply now]
    by (auto simp add: step_def handle_def fire_timers_rates split: if_splits)
next
  case (Authenticate s p)
  then show ?thesis using h
    by (auto simp add: step_def handle_def authenticate_def fire_timers_rates Let_def
          split: payload.splits option.splits if_splits)
next
  case (Disconnect s)
  then show ?thesis using h
    by (auto simp add: step_def handle_def disconnect_def fire_timers_rates Let_def
          split: option.splits if_splits)
qed (use h in \<open>auto simp add: step_def handle_def connection_def joinChat_def leaveChat_def typing_def
       stopTyping_def markMessagesRead_def pingServer_def socket_join_def socket_leave_def
       addUserToRoom_def removeUserFromRoom_rates fire_timers_rates Let_def
       split: payload.splits option.splits if_splits\<close>)

lemma send_calls_window:
  assumes v: "\<forall>c \<in> set ((start, s, fs, callback) # calls). case c of (t, s', fs', cb') \<Rightarrow>
        resolve st s' = u \<and> truthy (get_field fs' ''chatId'') \<and> truthy (get_field fs' ''content'')"
    and o: "case messageRateLimits st u of None \<Rightarrow> True | Some e \<Rightarrow> timestamp e + 1000 \<le> start"
    and w: "\<forall>c \<in> set calls. fst c < start + 1000"
  shows "map (\<lambda>out. out = Limited) (fst (send_calls st ((start, s, fs, callback) # calls)))
        = map (\<lambda>i. 5 \<le> i) [0..<Suc (length calls)] \<and>
      Failed \<notin> set (fst (send_calls st ((start, s, fs, callback) # calls))) \<and>
      messageRateLimits (snd (send_calls st ((start, s, fs, callback) # calls))) u
        = Some \<lparr>count = Suc (length calls), timestamp = start\<rparr> \<and>
      socketIdToUserId (snd (send_calls st ((start, s, fs, callback) # calls))) = socketIdToUserId st"
proof -
  have v0: "resolve st s = u" "truthy (get_field fs ''chatId'')" "truthy (get_field fs ''content'')"
    using v by simp_all
  obtain st1 effs where 1: "step start (SendMessage s (Fields fs) callback) st = Inr (st1, effs)"
    and oc: "outcome_of (fire_timers start st) s fs callback start (Inr (st1, effs)) \<in> {Sent, Waiting}"
    and e: "messageRateLimits st1 u = Some \<lparr>count = 1, timestamp = start\<rparr>"
    and b: "socketIdToUserId st1 = socketIdToUserId st"
    using step_send_open [OF v0(2,3), where st=st and s=s and now=start and callback=callback] o v0(1) by auto
  have v1: "\<forall>c \<in> set calls. case c of (t, s, fs, cb) \<Rightarrow>
      resolve st1 s = u \<and> truthy (get_field fs ''chatId'') \<and> truthy (get_field fs ''content'')"
    using v resolve_cong [OF b] by auto
  note r = send_calls_within [OF e v1 w]
  have m: "map (\<lambda>i. 5 \<le> i) [0..<Suc (length calls)] = False # map (\<lambda>i. 5 \<le> 1 + i) [0..<length calls]"
    by (simp add: upt_conv_Cons map_Suc_upt [symmetric] del: upt_Suc)
  have ol: "outcome_of (fire_timers start st) s fs callback start (Inr (st1, effs)) \<noteq> Limited"
    and onf: "outcome_of (fire_timers start st) s fs callback start (Inr (st1, effs)) \<noteq> Failed"
    using oc by auto
  show ?thesis
    using 1 r m ol onf b by (simp add: split_def Let_def del: upt_Suc)
qed

text \<open>
  Seven sends of a connection without a cached profile, within one second: five wait for
  the profile, two are limited.
\<close>

lemma seven_sends:
  "fst (send_calls init
        [(0, ''A'', [(''chatId'', JStr ''r1''), (''content'', JStr ''hi'')], True),
         (10, ''A'', [(''chatId'', JStr ''r1''), (''content'', JStr ''hi'')], True),
         (20, ''A'', [(''chatId'', JStr ''r1''), (''content'', JStr ''hi'')], True),
         (30, ''A'', [(''chatId'', JStr ''r1''), (''content'', JStr ''hi'')], True),
         (40, ''A'', [(''chatId'', JStr ''r1''), (''content'', JStr ''hi'')], True),
         (50, ''A'', [(''chatId'', JStr ''r1''), (''content'', JStr ''hi'')], True),
         (999, ''A'', [(''chatId'', JStr ''r1''), (''content'', JStr ''hi'')], True)])
   = [Waiting, Waiting, Waiting, Waiting, Waiting, Limited, Limited]"
  by (simp add: machine_defs outcome_of_def init_def)

text \<open>
  C2. \<^verbatim>\<open>sendMessage\<close> events of one user, each with a valid payload, handled one after the
  other by the server. When the first of them opens a window at \<open>start\<close> (the user has no
  rate entry, or the entry's window began at least 1000 ms before) and the others arrive
  before \<open>start + 1000\<close>, the first five pass the limiter (the message is emitted, or the
  handler waits for the sender's profile and emits it then) and the sixth and every further
  one is answered with the \<^verbatim>\<open>RATE_LIMIT\<close> error and nothing else; none throws. The entry
  then counts all of them from \<open>start\<close>. A further valid \<^verbatim>\<open>sendMessage\<close> of the user at
  \<open>start + 1000\<close> or later passes and starts a new window with count 1. No other event
  changes the user's entry: only a valid \<^verbatim>\<open>sendMessage\<close> of the user counts.
\<close>

theorem sendMessage_rate_window:
  "((\<forall>c \<in> set ((start, s, fs, callback) # calls). case c of (t, s', fs', cb') \<Rightarrow>
        resolve st s' = u \<and> truthy (get_field fs' ''chatId'') \<and> truthy (get_field fs' ''content'')) \<and>
    (case messageRateLimits st u of None \<Rightarrow> True | Some e \<Rightarrow> timestamp e + 1000 \<le> start) \<and>
    (\<forall>c \<in> set calls. fst c < start + 1000) \<longrightarrow>
      map (\<lambda>out. out = Limited) (fst (send_calls st ((start, s, fs, callback) # calls)))
        = map (\<lambda>i. 5 \<le> i) [0..<Suc (length calls)] \<and>
      Failed \<notin> set (fst (send_calls st ((start, s, fs, callback) # calls))) \<and>
      messageRateLimits (snd (send_calls st ((start, s, fs, callback) # calls))) u
        = Some \<lparr>count = Suc (length calls), timestamp = start\<rparr> \<and>
      (start + 1000 \<le> later \<and> resolve st s2 = u \<and>
       truthy (get_field fs2 ''chatId'') \<and> truthy (get_field fs2 ''content'') \<longrightarrow>
         fst (send_calls (snd (send_calls st ((start, s, fs, callback) # calls))) [(later, s2, fs2, cb2)])
           \<in> {[Sent], [Waiting]} \<and>
         messageRateLimits
           (snd (send_calls (snd (send_calls st ((start, s, fs, callback) # calls))) [(later, s2, fs2, cb2)])) u
           = Some \<lparr>count = 1, timestamp = later\<rparr>)) \<and>
   (step now ev sta = Inr (stb, effs) \<and> \<not> counts_for u (fire_timers now sta) ev \<longrightarrow>
      messageRateLimits stb u = messageRateLimits sta u)"
  (is "(?pre \<longrightarrow> ?lim \<and> ?nofail \<and> ?entry \<and> ?next) \<and> ?frame")
proof -
  have f: ?frame
    using step_rates_other [where now=now and ev=ev and st=sta and ?st1.0=stb and effs=effs and u=u] by blast
  have a: "?pre \<longrightarrow> ?lim \<and> ?nofail \<and> ?entry \<and> ?next"
  proof
    assume p: ?pre
    let ?end = "snd (send_calls st ((start, s, fs, callback) # calls))"
    have r: "?lim \<and> ?nofail \<and> ?entry \<and> socketIdToUserId ?end = socketIdToUserId st"
      using send_calls_window [where start=start and s=s and fs=fs and callback=callback and calls=calls and st=st and u=u] p by blast
    have n: ?next
    proof
      assume q: "start + 1000 \<le> later \<and> resolve st s2 = u \<and>
         truthy (get_field fs2 ''chatId'') \<and> truthy (get_field fs2 ''content'')"
      have rs: "resolve ?end s2 = u"
        using r q resolve_cong [where ?st1.0="?end" and st=st and s=s2] by simp
      have op: "case messageRateLimits ?end (resolve ?end s2) of None \<Rightarrow> True
                | Some e \<Rightarrow> timestamp e + 1000 \<le> later"
        using r q rs by simp
      obtain st1 e1 where 1: "step later (SendMessage s2 (Fields fs2) cb2) ?end = Inr (st1, e1)"
        and oc: "outcome_of (fire_timers later ?end) s2 fs2 cb2 later (Inr (st1, e1)) \<in> {Sent, Waiting}"
        and e: "messageRateLimits st1 (resolve ?end s2) = Some \<lparr>count = 1, timestamp = later\<rparr>"
        using step_send_open [where fs=fs2 and st="?end" and s=s2 and now=later and callback=cb2] q op by blast
      show "fst (send_calls ?end [(later, s2, fs2, cb2)]) \<in> {[Sent], [Waiting]} \<and>
         messageRateLimits (snd (send_calls ?end [(later, s2, fs2, cb2)])) u
           = Some \<lparr>count = 1, timestamp = later\<rparr>"
        using 1 oc e rs by (auto simp add: Let_def)
    qed
    show "?lim \<and> ?nofail \<and> ?entry \<and> ?next"
      using r n by blast
  qed
  show ?thesis
    using a f by blast
qed

theorem sendMessage_rate_window_witness:
  "map (\<lambda>out. out = Limited)
     (fst (send_calls init
        [(0, ''A'', [(''chatId'', JStr ''r1''), (''content'', JStr ''hi'')], True),
         (10, ''A'', [(''chatId'', JStr ''r1''), (''content'', JStr ''hi'')], True),
         (20, ''A'', [(''chatId'', JStr ''r1''), (''content'', JStr ''hi'')], True),
         (30, ''A'', [(''chatId'', JStr ''r1''), (''content'', JStr ''hi'')], True),
         (40, ''A'', [(''chatId'', JStr ''r1''), (''content'', JStr ''hi'')], True),
         (50, ''A'', [(''chatId'', JStr ''r1''), (''content'', JStr ''hi'')], True),
         (999, ''A'', [(''chatId'', JStr ''r1''), (''content'', JStr ''hi'')], True)]))
     = [False, False, False, False, False, True, True] \<and>
   Failed \<notin> set (fst (send_calls init
        [(0, ''A'', [(''chatId'', JStr ''r1''), (''content'', JStr ''hi'')], True),
         (10, ''A'', [(''chatId'', JStr ''r1''), (''content'', JStr ''hi'')], True),
         (20, ''A'', [(''chatId'', JStr ''r1''), (''content'', JStr ''hi'')], True),
         (30, ''A'', [(''chatId'', JStr ''r1''), (''content'', JStr ''hi'')], True),
         (40, ''A'', [(''chatId'', JStr ''r1''), (''content'', JStr ''hi'')], True),
         (50, ''A'', [(''chatId'', JStr ''r1''), (''content'', JStr ''hi'')], True),
         (999, ''A'', [(''chatId'', JStr ''r1''), (''content'', JStr ''hi'')], True)])) \<and>
   fst (send_calls (snd (send_calls init
        [(0, ''A'', [(''chatId'', JStr ''r1''), (''content'', JStr ''hi'')], True),
         (10, ''A'', [(''chatId'', JStr ''r1''), (''content'', JStr ''hi'')], True),
         (20, ''A'', [(''chatId'', JStr ''r1''), (''content'', JStr ''hi'')], True),
         (30, ''A'', [(''chatId'', JStr ''r1''), (''content'', JStr ''hi'')], True),
         (40, ''A'', [(''chatId'', JStr ''r1''), (''content'', JStr ''hi'')], True),
         (50, ''A'', [(''chatId'', JStr ''r1''), (''content'', JStr ''hi'')], True),
         (999, ''A'', [(''chatId'', JStr ''r1''), (''content'', JStr ''hi'')], True)]))
      [(1000, ''A'', [(''chatId'', JStr ''r1''), (''content'', JStr ''hi'')], False)])
     \<in> {[Sent], [Waiting]} \<and>
   step 5 (SendMessage ''B'' (Fields [(''chatId'', JStr ''r1''), (''content'', JStr ''hi'')]) False)
     (init\<lparr>messageRateLimits := [JStr ''A'' \<mapsto> \<lparr>count = 3, timestamp = 7\<rparr>]\<rparr>)
     = Inr (init\<lparr>messageRateLimits := [JStr ''A'' \<mapsto> \<lparr>count = 3, timestamp = 7\<rparr>,
                                          JStr ''B'' \<mapsto> \<lparr>count = 1, timestamp = 5\<rparr>],
                 pending := [SendLookup ''B'' (JStr ''B'') (JStr ''r1'') (JStr ''hi'') False]\<rparr>, []) \<and>
   messageRateLimits (init\<lparr>messageRateLimits := [JStr ''A'' \<mapsto> \<lparr>count = 3, timestamp = 7\<rparr>,
                                          JStr ''B'' \<mapsto> \<lparr>count = 1, timestamp = 5\<rparr>],
                 pending := [SendLookup ''B'' (JStr ''B'') (JStr ''r1'') (JStr ''hi'') False]\<rparr>) (JStr ''A'')
     = messageRateLimits (init\<lparr>messageRateLimits := [JStr ''A'' \<mapsto> \<lparr>count = 3, timestamp = 7\<rparr>]\<rparr>)
         (JStr ''A'')"
proof -
  let ?fs = "[(''chatId'', JStr ''r1''), (''content'', JStr ''hi'')]"
  let ?calls = "[(10::int, ''A'', ?fs, True), (20, ''A'', ?fs, True), (30, ''A'', ?fs, True),
                 (40, ''A'', ?fs, True), (50, ''A'', ?fs, True), (999, ''A'', ?fs, True)]"
  let ?sta = "init\<lparr>messageRateLimits := [JStr ''A'' \<mapsto> \<lparr>count = 3, timestamp = 7\<rparr>]\<rparr>"
  have r: "resolve init ''A'' = JStr ''A''"
    by (simp add: resolve_def map_get_def js_or_def init_def)
  have v: "truthy (get_field ?fs ''chatId'')" "truthy (get_field ?fs ''content'')"
    by (simp_all add: get_field_def)
  have pre: "(\<forall>c \<in> set ((0, ''A'', ?fs, True) # ?calls). case c of (t, s', fs', cb') \<Rightarrow>
        resolve init s' = JStr ''A'' \<and> truthy (get_field fs' ''chatId'') \<and> truthy (get_field fs' ''content'')) \<and>
    (case messageRateLimits init (JStr ''A'') of None \<Rightarrow> True | Some e \<Rightarrow> timestamp e + 1000 \<le> 0) \<and>
    (\<forall>c \<in> set ?calls. fst c < 0 + 1000)"
    using r v by (simp add: init_def)
  have nx: "(0::int) + 1000 \<le> 1000 \<and> resolve init ''A'' = JStr ''A'' \<and>
       truthy (get_field ?fs ''chatId'') \<and> truthy (get_field ?fs ''content'')"
    using r v by simp
  have m: "map (\<lambda>i. 5 \<le> i) [0..<Suc (length ?calls)] = [False, False, False, False, False, True, True]"
    by (simp add: upt_conv_Cons)
  let ?stb = "init\<lparr>messageRateLimits := [JStr ''A'' \<mapsto> \<lparr>count = 3, timestamp = 7\<rparr>,
                                          JStr ''B'' \<mapsto> \<lparr>count = 1, timestamp = 5\<rparr>],
                 pending := [SendLookup ''B'' (JStr ''B'') (JStr ''r1'') (JStr ''hi'') False]\<rparr>"
  have sb: "step 5 (SendMessage ''B'' (Fields ?fs) False) ?sta = Inr (?stb, [])"
    by (simp add: machine_defs init_def)
  have nc: "\<not> counts_for (JStr ''A'') (fire_timers 5 ?sta) (SendMessage ''B'' (Fields ?fs) False)"
    by (simp add: counts_for_def fire_timers_def resolve_def map_get_def js_or_def init_def)
  have st: "step 5 (SendMessage ''B'' (Fields ?fs) False) ?sta = Inr (?stb, []) \<and>
      \<not> counts_for (JStr ''A'') (fire_timers 5 ?sta) (SendMessage ''B'' (Fields ?fs) False)"
    using sb nc by blast
  note t = sendMessage_rate_window [where start=0 and s="''A''" and fs="?fs" and callback=True
      and calls="?calls" and st=init and u="JStr ''A''" and later=1000 and ?s2.0="''A''" and ?fs2.0="?fs"
      and ?cb2.0=False and now=5 and ev="SendMessage ''B'' (Fields ?fs) False" and sta="?sta" and stb="?stb" and effs="[]"]
  note a = mp [OF conjunct1 [OF t] pre]
  have 1: "map (\<lambda>out. out = Limited) (fst (send_calls init ((0, ''A'', ?fs, True) # ?calls)))
      = [False, False, False, False, False, True, True]"
    using conjunct1 [OF a] unfolding m .
  have 2: "Failed \<notin> set (fst (send_calls init ((0, ''A'', ?fs, True) # ?calls)))"
    using conjunct1 [OF conjunct2 [OF a]] .
  have 3: "fst (send_calls (snd (send_calls init ((0, ''A'', ?fs, True) # ?calls))) [(1000, ''A'', ?fs, False)])
     \<in> {[Sent], [Waiting]}"
    using conjunct1 [OF mp [OF conjunct2 [OF conjunct2 [OF conjunct2 [OF a]]] nx]] .
  have 4: "messageRateLimits ?stb (JStr ''A'') = messageRateLimits ?sta (JStr ''A'')"
    using mp [OF conjunct2 [OF t] st] .
  show ?thesis
    using 1 2 3 sb 4 by blast
qed

end
